theory Spec2Isabelle
  imports Main
begin

section \<open>The driver and the process environment\<close>

text \<open>
  The module \<^verbatim>\<open>toshi/database.py\<close> talks to three collaborators it does not
  implement: the asyncpg driver (pools, connections, transactions), the file system
  (the scripts under \<^verbatim>\<open>sql/\<close>) and the logger. Every call into one of them
  is recorded as an \<open>event\<close>; the list of events so far is the \<open>trace\<close>. What a
  call answers (a value, or an exception) is given by an \<open>env\<close>: a function of the
  trace so far and of the call. The answers are arbitrary, so a theorem that holds for
  every \<open>env\<close> holds for every behaviour of the driver.
\<close>

type_synonym pool = nat
type_synonym cb = nat
type_synonym config = nat
type_synonym timeout = "nat option"

datatype conn = Connection (conn_id: nat) (is_closed: bool)

datatype sqlval = SNull | SInt int | SStr string

type_synonym row = "(string \<times> sqlval) list"

datatype exn =
    DatabaseError string
  | ConnectionDoesNotExistError
  | UndefinedTableError
  | AssertionError string
  | TypeError
  | KeyError
  | AttributeError
  | OSError
  | SystemExit int
  | OtherError string

text \<open>
  Python's class hierarchy, as far as \<^verbatim>\<open>except Exception\<close> tells: \<^verbatim>\<open>SystemExit\<close> derives
  from \<^verbatim>\<open>BaseException\<close> only, the other classes derive from \<^verbatim>\<open>Exception\<close>;
  \<^verbatim>\<open>OtherError\<close> stands for any other class derived from \<^verbatim>\<open>Exception\<close>, such as an
  error of the driver.
\<close>

fun is_Exception :: "exn \<Rightarrow> bool" where
  "is_Exception (SystemExit code) = False"
| "is_Exception e = True"

datatype txn = Transaction (txn_conn: conn)

datatype event =
    PoolSuperAcquire pool timeout
  | PoolAcquire pool timeout
  | PoolRelease pool "conn option"
  | PoolClose pool
  | CreatePool "config option"
  | TransactionStart txn
  | TransactionCommit txn
  | TransactionRollback txn
  | Execute conn string "sqlval list" timeout
  | Executemany conn string "sqlval list list" timeout
  | Fetch conn string "sqlval list" timeout
  | Fetchval conn string "sqlval list" nat timeout
  | Fetchrow conn string "sqlval list" timeout
  | Callback cb
  | Sleep nat
  | LogInfo string
  | LogWarning string
  | LogException string

record world =
  trace :: "event list"
  global_database_pool :: "pool option"

record env =
  files :: "string \<Rightarrow> string option"
  on_conn :: "event list \<Rightarrow> event \<Rightarrow> exn + conn"
  on_unit :: "event list \<Rightarrow> event \<Rightarrow> exn option"
  on_status :: "event list \<Rightarrow> event \<Rightarrow> exn + string"
  on_row :: "event list \<Rightarrow> event \<Rightarrow> exn + row option"
  on_rows :: "event list \<Rightarrow> event \<Rightarrow> exn + row list"
  on_val :: "event list \<Rightarrow> event \<Rightarrow> exn + sqlval"
  on_pool :: "event list \<Rightarrow> event \<Rightarrow> exn + pool"
  cb_body :: "cb \<Rightarrow> cb list \<times> exn option"

definition emit :: "event \<Rightarrow> world \<Rightarrow> world" where
  "emit ev w = w\<lparr>trace := trace w @ [ev]\<rparr>"

definition call_conn :: "env \<Rightarrow> event \<Rightarrow> world \<Rightarrow> (exn + conn) \<times> world" where
  "call_conn env ev w = (on_conn env (trace w) ev, emit ev w)"

definition call_unit :: "env \<Rightarrow> event \<Rightarrow> world \<Rightarrow> exn option \<times> world" where
  "call_unit env ev w = (on_unit env (trace w) ev, emit ev w)"

definition call_status :: "env \<Rightarrow> event \<Rightarrow> world \<Rightarrow> (exn + string) \<times> world" where
  "call_status env ev w = (on_status env (trace w) ev, emit ev w)"

definition call_row :: "env \<Rightarrow> event \<Rightarrow> world \<Rightarrow> (exn + row option) \<times> world" where
  "call_row env ev w = (on_row env (trace w) ev, emit ev w)"

definition call_rows :: "env \<Rightarrow> event \<Rightarrow> world \<Rightarrow> (exn + row list) \<times> world" where
  "call_rows env ev w = (on_rows env (trace w) ev, emit ev w)"

definition call_val :: "env \<Rightarrow> event \<Rightarrow> world \<Rightarrow> (exn + sqlval) \<times> world" where
  "call_val env ev w = (on_val env (trace w) ev, emit ev w)"

definition call_pool :: "env \<Rightarrow> event \<Rightarrow> world \<Rightarrow> (exn + pool) \<times> world" where
  "call_pool env ev w = (on_pool env (trace w) ev, emit ev w)"

section \<open>SafePool\<close>

text \<open>
  \<^verbatim>\<open>SafePool._acquire(self, timeout)\<close>: the \<^verbatim>\<open>while True\<close> loop around the
  driver pool's own \<^verbatim>\<open>_acquire\<close>. The loop has no bound, so the function is partial:
  \<open>None\<close> is the run that never returns.
\<close>

partial_function (option) SafePool_acquire ::
  "env \<Rightarrow> pool \<Rightarrow> timeout \<Rightarrow> world \<Rightarrow> ((exn + conn) \<times> world) option" where
  "SafePool_acquire env self tmo w =
     (case call_conn env (PoolSuperAcquire self tmo) w of
        (Inl e, w1) \<Rightarrow> Some (Inl e, w1)
      | (Inr con, w1) \<Rightarrow>
          if is_closed con
          then (case call_unit env (PoolRelease self (Some con)) w1 of
                  (Some e, w2) \<Rightarrow> Some (Inl e, w2)
                | (None, w2) \<Rightarrow> SafePool_acquire env self tmo w2)
          else Some (Inr con, w1))"

text \<open>The events of handing back and releasing each connection of \<open>cs\<close> in turn.\<close>

definition discard_events :: "pool \<Rightarrow> timeout \<Rightarrow> conn list \<Rightarrow> event list" where
  "discard_events self tmo cs =
     concat (map (\<lambda>c. [PoolSuperAcquire self tmo, PoolRelease self (Some c)]) cs)"

section \<open>Formatting\<close>

text \<open>
  \<^verbatim>\<open>str(n)\<close> for an integer and \<^verbatim>\<open>"{:08}".format(n)\<close>: decimal digits, padded
  with zeros to a width of eight, the sign counted in the width.
\<close>

definition digit_char :: "nat \<Rightarrow> char" where
  "digit_char d = ''0123456789'' ! d"

fun digits :: "nat \<Rightarrow> string" where
  "digits n = (if n < 10 then [digit_char n] else digits (n div 10) @ [digit_char (n mod 10)])"

declare digits.simps [simp del]

definition str_int :: "int \<Rightarrow> string" where
  "str_int v = (if v < 0 then CHR ''-'' # digits (nat (- v)) else digits (nat v))"

definition zfill :: "nat \<Rightarrow> string \<Rightarrow> string" where
  "zfill width s = replicate (width - length s) CHR ''0'' @ s"

definition format_08 :: "int \<Rightarrow> string" where
  "format_08 v = (if v < 0 then CHR ''-'' # zfill 7 (digits (nat (- v))) else zfill 8 (digits (nat v)))"

fun str_sqlval :: "sqlval \<Rightarrow> string" where
  "str_sqlval SNull = ''None''"
| "str_sqlval (SInt v) = str_int v"
| "str_sqlval (SStr s) = s"

definition migrate_path :: "int \<Rightarrow> string" where
  "migrate_path version = ''sql/migrate_'' @ format_08 version @ ''.sql''"

definition path_exists :: "env \<Rightarrow> string \<Rightarrow> bool" where
  "path_exists env path = (files env path \<noteq> None)"

section \<open>Migrations\<close>

definition SELECT_VERSION :: string where
  "SELECT_VERSION = ''SELECT version_number FROM database_version LIMIT 1''"

definition UPDATE_VERSION :: string where
  "UPDATE_VERSION = ''UPDATE database_version SET version_number = $1''"

definition MISSING_CREATE_TABLES :: string where
  "MISSING_CREATE_TABLES = ''Missing sql/create_tables.sql: cannot initialise database''"

text \<open>
  \<^verbatim>\<open>row['version_number']\<close>: \<^verbatim>\<open>fetchrow\<close> answers \<^verbatim>\<open>None\<close> when the table is
  empty, and subscripting \<^verbatim>\<open>None\<close> raises \<^verbatim>\<open>TypeError\<close>.
\<close>

definition subscript :: "row option \<Rightarrow> string \<Rightarrow> exn + sqlval" where
  "subscript r k =
     (case r of
        None \<Rightarrow> Inl TypeError
      | Some cols \<Rightarrow> (case map_of cols k of None \<Rightarrow> Inl KeyError | Some v \<Rightarrow> Inr v))"

text \<open>
  The probing loop shared by \<^verbatim>\<open>create_tables\<close> (fresh database) and
  \<^verbatim>\<open>wait_for_migration\<close>:
  \<^verbatim>\<open>while True: version += 1; if not os.path.exists(...): version -= 1; break\<close>.
\<close>

partial_function (option) latest_migration :: "env \<Rightarrow> int \<Rightarrow> int option" where
  "latest_migration env version =
     (if \<not> path_exists env (migrate_path (version + 1))
      then Some (version + 1 - 1)
      else latest_migration env (version + 1))"

text \<open>
  The migration loop of \<^verbatim>\<open>create_tables\<close> on an existing database. It answers the
  version reached and the exception of the script that failed, if one did and
  \<^verbatim>\<open>except Exception as e\<close> caught it; an exception that is not an \<^verbatim>\<open>Exception\<close> leaves
  the loop and \<^verbatim>\<open>create_tables\<close> at once (\<open>Inl\<close>).
\<close>

partial_function (option) apply_migrations ::
  "env \<Rightarrow> conn \<Rightarrow> int \<Rightarrow> world \<Rightarrow> ((exn + int \<times> exn option) \<times> world) option" where
  "apply_migrations env con version w =
     (case files env (migrate_path (version + 1)) of
        Some sql \<Rightarrow>
          (case call_status env (Execute con sql [] None)
                  (emit (LogInfo (''applying migration script: '' @ format_08 (version + 1))) w) of
             (Inl e, w1) \<Rightarrow>
               if is_Exception e
               then Some (Inr (version + 1 - 1, Some e), w1)
               else Some (Inl e, w1)
           | (Inr resp, w1) \<Rightarrow> apply_migrations env con (version + 1) w1)
      | None \<Rightarrow> Some (Inr (version + 1 - 1, None), w))"

text \<open>The \<^verbatim>\<open>except UndefinedTableError\<close> branch of \<^verbatim>\<open>create_tables\<close>: a fresh database.\<close>

definition create_tables_fresh :: "env \<Rightarrow> conn \<Rightarrow> world \<Rightarrow> ((exn + unit) \<times> world) option" where
  "create_tables_fresh env con w1 =
     (case call_status env
             (Execute con ''CREATE TABLE database_version (version_number INTEGER)'' [] None) w1 of
        (Inl e, w2) \<Rightarrow> Some (Inl e, w2)
      | (Inr r1, w2) \<Rightarrow>
     (case call_status env
             (Execute con ''INSERT INTO database_version (version_number) VALUES (0)'' [] None) w2 of
        (Inl e, w3) \<Rightarrow> Some (Inl e, w3)
      | (Inr r2, w3) \<Rightarrow>
     (case files env ''sql/create_tables.sql'' of
        None \<Rightarrow> Some (Inl OSError, w3)
      | Some sql \<Rightarrow>
     (case call_status env (Execute con sql [] None) w3 of
        (Inl e, w4) \<Rightarrow> Some (Inl e, w4)
      | (Inr r3, w4) \<Rightarrow>
     (case latest_migration env 0 of
        None \<Rightarrow> None
      | Some version \<Rightarrow>
          if version > 0
          then (case call_row env (Fetchrow con SELECT_VERSION [] None) w4 of
                  (Inl e, w5) \<Rightarrow> Some (Inl e, w5)
                | (Inr r, w5) \<Rightarrow>
                    (case subscript r ''version_number'' of
                       Inl e \<Rightarrow> Some (Inl e, w5)
                     | Inr v \<Rightarrow>
                         if v \<noteq> SInt version
                         then Some (Inr (),
                                emit (LogWarning (''DB version: '' @ str_sqlval v
                                        @ '', latest migration script: '' @ str_int version))
                                  (emit (LogWarning ''Warning, migration scripts exist but database version has not been set in create_tables.sql'') w5))
                         else Some (Inr (), w5)))
          else Some (Inr (), w4))))))"

definition create_tables :: "env \<Rightarrow> conn \<Rightarrow> world \<Rightarrow> ((exn + unit) \<times> world) option" where
  "create_tables env con w =
     (if \<not> path_exists env ''sql/create_tables.sql''
      then Some (Inr (), emit (LogWarning MISSING_CREATE_TABLES) w)
      else
        case call_row env (Fetchrow con SELECT_VERSION [] None) w of
          (Inl e, w1) \<Rightarrow>
            if e = UndefinedTableError then create_tables_fresh env con w1 else Some (Inl e, w1)
        | (Inr r, w1) \<Rightarrow>
            (case subscript r ''version_number'' of
               Inl e \<Rightarrow> Some (Inl e, w1)
             | Inr v \<Rightarrow>
                 (case v of
                    SInt version \<Rightarrow>
                      (case apply_migrations env con version
                              (emit (LogInfo (''got database version: '' @ str_sqlval v)) w1) of
                         None \<Rightarrow> None
                       | Some (Inl e, w3) \<Rightarrow> Some (Inl e, w3)
                       | Some (Inr (version', exception), w3) \<Rightarrow>
                           (case call_status env (Execute con UPDATE_VERSION [SInt version'] None) w3 of
                              (Inl e, w4) \<Rightarrow> Some (Inl e, w4)
                            | (Inr resp, w4) \<Rightarrow>
                                (case exception of
                                   Some e \<Rightarrow> Some (Inl e, w4)
                                 | None \<Rightarrow> Some (Inr (), w4))))
                  | SNull \<Rightarrow> Some (Inl TypeError, emit (LogInfo (''got database version: '' @ str_sqlval v)) w1)
                  | SStr s \<Rightarrow> Some (Inl TypeError, emit (LogInfo (''got database version: '' @ str_sqlval v)) w1))))"

text \<open>The polling loop of \<^verbatim>\<open>wait_for_migration\<close>.\<close>

partial_function (option) wait_poll ::
  "env \<Rightarrow> conn \<Rightarrow> nat \<Rightarrow> int \<Rightarrow> world \<Rightarrow> ((exn + unit) \<times> world) option" where
  "wait_poll env con poll_frequency version w =
     (case call_row env (Fetchrow con SELECT_VERSION [] None) w of
        (Inl e, w1) \<Rightarrow>
          if e = UndefinedTableError
          then wait_poll env con poll_frequency version
                 (emit (Sleep poll_frequency) (emit (LogInfo ''waiting for database migration...'') w1))
          else Some (Inl e, w1)
      | (Inr r, w1) \<Rightarrow>
          (case subscript r ''version_number'' of
             Inl e \<Rightarrow> Some (Inl e, w1)
           | Inr v \<Rightarrow>
               if SInt version = v
               then Some (Inr (), w1)
               else wait_poll env con poll_frequency version
                      (emit (Sleep poll_frequency) (emit (LogInfo ''waiting for database migration...'') w1))))"

definition wait_for_migration ::
  "env \<Rightarrow> conn \<Rightarrow> nat \<Rightarrow> world \<Rightarrow> ((exn + unit) \<times> world) option" where
  "wait_for_migration env con poll_frequency w =
     (if \<not> path_exists env ''sql/create_tables.sql''
      then Some (Inr (), emit (LogWarning MISSING_CREATE_TABLES) w)
      else
        case latest_migration env 0 of
          None \<Rightarrow> None
        | Some version \<Rightarrow>
            (case wait_poll env con poll_frequency version w of
               None \<Rightarrow> None
             | Some (Inl e, w1) \<Rightarrow> Some (Inl e, w1)
             | Some (Inr u, w1) \<Rightarrow>
                 Some (Inr (), emit (LogInfo (''got database version: '' @ str_int version)) w1)))"

section \<open>The process-wide pool\<close>

definition get_database_pool :: "world \<Rightarrow> exn + pool" where
  "get_database_pool w =
     (case global_database_pool w of
        None \<Rightarrow> Inl (AssertionError ''database not prepared before use'')
      | Some p \<Rightarrow> Inr p)"

definition set_database_pool :: "pool option \<Rightarrow> world \<Rightarrow> world" where
  "set_database_pool p w = w\<lparr>global_database_pool := p\<rparr>"

definition prepare_global_pool :: "env \<Rightarrow> world \<Rightarrow> (exn + pool) \<times> world" where
  "prepare_global_pool env w =
     (case global_database_pool w of
        None \<Rightarrow>
          (case call_pool env (CreatePool None) w of
             (Inl e, w1) \<Rightarrow> (Inl e, w1)
           | (Inr p, w1) \<Rightarrow> (Inr p, w1\<lparr>global_database_pool := Some p\<rparr>))
      | Some p \<Rightarrow> (Inr p, w))"

text \<open>
  \<^verbatim>\<open>prepare_database(config, handle_migration)\<close>. The block
  \<^verbatim>\<open>async with pool.acquire() as con\<close> acquires on entry and releases on exit, also
  when the body raised.
\<close>

definition prepare_database ::
  "env \<Rightarrow> config option \<Rightarrow> bool option \<Rightarrow> world \<Rightarrow> ((exn + pool) \<times> world) option" where
  "prepare_database env cfg handle_migration w =
     (case (case cfg of None \<Rightarrow> prepare_global_pool env w
                      | Some c \<Rightarrow> call_pool env (CreatePool (Some c)) w) of
        (Inl e, w1) \<Rightarrow> Some (Inl e, w1)
      | (Inr p, w1) \<Rightarrow>
          (case call_conn env (PoolAcquire p None) w1 of
             (Inl e, w2) \<Rightarrow> Some (Inl e, w2)
           | (Inr con, w2) \<Rightarrow>
               (case (if handle_migration = Some True \<or> (cfg = None \<and> handle_migration = None)
                      then create_tables env con w2
                      else wait_for_migration env con 1 w2) of
                  None \<Rightarrow> None
                | Some (r, w3) \<Rightarrow>
                    (case call_unit env (PoolRelease p (Some con)) w3 of
                       (Some e, w4) \<Rightarrow> Some (Inl e, w4)
                     | (None, w4) \<Rightarrow>
                         (case r of Inl e \<Rightarrow> Some (Inl e, w4) | Inr u \<Rightarrow> Some (Inr p, w4))))))"

section \<open>HandlerDatabasePoolContext\<close>

text \<open>
  The slots of the class. The field \<^verbatim>\<open>done\<close> is written \<open>done'\<close>. A callback is
  known by its identity \<open>cb\<close>; what it does when called is \<open>cb_body\<close> of the
  environment: the callbacks it registers with \<^verbatim>\<open>on_commit\<close>, then the exception it
  raises, if any.
\<close>

record scope =
  pool :: pool
  timeout :: timeout
  autocommit :: bool
  connection :: "conn option"
  transaction :: "txn option"
  done' :: bool
  callbacks :: "cb list"

definition HandlerDatabasePoolContext :: "pool \<Rightarrow> bool \<Rightarrow> timeout \<Rightarrow> scope" where
  "HandlerDatabasePoolContext p ac tmo =
     \<lparr>pool = p, timeout = tmo, autocommit = ac, connection = None, transaction = None,
      done' = False, callbacks = []\<rparr>"

definition acquire :: "scope \<Rightarrow> bool option \<Rightarrow> scope" where
  "acquire self ac =
     HandlerDatabasePoolContext (pool self)
       (case ac of None \<Rightarrow> autocommit self | Some a \<Rightarrow> a) (timeout self)"

definition on_commit :: "scope \<Rightarrow> cb \<Rightarrow> scope" where
  "on_commit self callback =
     (if callback \<notin> set (callbacks self)
      then self\<lparr>callbacks := callbacks self @ [callback]\<rparr>
      else self)"

text \<open>
  The tail of \<^verbatim>\<open>__aenter__\<close>:
  \<^verbatim>\<open>self.transaction = self.connection.transaction(); await self.transaction.start()\<close>.
\<close>

definition start_transaction :: "env \<Rightarrow> conn \<Rightarrow> scope \<Rightarrow> world \<Rightarrow> (exn + unit) \<times> scope \<times> world" where
  "start_transaction env con self w =
     (case call_unit env (TransactionStart (Transaction con)) w of
        (Some e, w1) \<Rightarrow> (Inl e, self\<lparr>transaction := Some (Transaction con)\<rparr>, w1)
      | (None, w1) \<Rightarrow> (Inr (), self\<lparr>transaction := Some (Transaction con)\<rparr>, w1))"

text \<open>\<^verbatim>\<open>log.exception("Unable to recover global database pool"); sys.exit(1)\<close>\<close>

definition fail_hard :: "scope \<Rightarrow> world \<Rightarrow> (exn + unit) \<times> scope \<times> world" where
  "fail_hard self w =
     (Inl (SystemExit 1), self, emit (LogException ''Unable to recover global database pool'') w)"

definition aenter :: "env \<Rightarrow> scope \<Rightarrow> world \<Rightarrow> ((exn + unit) \<times> scope \<times> world) option" where
  "aenter env self w =
     (if connection self \<noteq> None
      then Some (Inl (DatabaseError ''Connection already in progress''), self, w)
      else
        case call_conn env (PoolAcquire (pool self) (timeout self)) w of
          (Inr con, w1) \<Rightarrow> Some (start_transaction env con (self\<lparr>connection := Some con\<rparr>) w1)
        | (Inl e, w1) \<Rightarrow>
            if e = ConnectionDoesNotExistError
            then
              (case get_database_pool (emit (LogException ''Error acquiring connection'') w1) of
                 Inl a \<Rightarrow> Some (Inl a, self, emit (LogException ''Error acquiring connection'') w1)
               | Inr g \<Rightarrow>
                   if pool self = g
                   then
                     (case call_unit env (PoolClose (pool self))
                             (set_database_pool None
                                (emit (LogException ''Error acquiring connection'') w1)) of
                        (Some x, w4) \<Rightarrow> Some (fail_hard self w4)
                      | (None, w4) \<Rightarrow>
                          (case prepare_database env None (Some False) w4 of
                             None \<Rightarrow> None
                           | Some (Inl x, w5) \<Rightarrow> Some (fail_hard self w5)
                           | Some (Inr p, w5) \<Rightarrow>
                               (case call_conn env (PoolAcquire p (timeout self)) w5 of
                                  (Inl x, w6) \<Rightarrow> Some (fail_hard (self\<lparr>pool := p\<rparr>) w6)
                                | (Inr con, w6) \<Rightarrow>
                                    Some (start_transaction env con
                                            (self\<lparr>pool := p, connection := Some con\<rparr>) w6))))
                   else Some (Inl e, self, emit (LogException ''Error acquiring connection'') w1))
            else Some (Inl e, self, w1))"

text \<open>Calling one callback: the event, its registrations, its outcome.\<close>

definition call_callback :: "env \<Rightarrow> cb \<Rightarrow> scope \<Rightarrow> world \<Rightarrow> exn option \<times> scope \<times> world" where
  "call_callback env c self w =
     (snd (cb_body env c), foldl on_commit self (fst (cb_body env c)), emit (Callback c) w)"

text \<open>\<^verbatim>\<open>for callback in callbacks: f = callback(); if asyncio.iscoroutine(f): await f\<close>\<close>

fun run_callbacks :: "env \<Rightarrow> cb list \<Rightarrow> scope \<Rightarrow> world \<Rightarrow> exn option \<times> scope \<times> world" where
  "run_callbacks env [] self w = (None, self, w)"
| "run_callbacks env (c # cs) self w =
     (case call_callback env c self w of
        (Some e, self1, w1) \<Rightarrow> (Some e, self1, w1)
      | (None, self1, w1) \<Rightarrow> run_callbacks env cs self1 w1)"

text \<open>
  The \<^verbatim>\<open>finally\<close> block of \<^verbatim>\<open>commit\<close>, given the outcome \<open>r\<close> of the
  \<^verbatim>\<open>try\<close> block: an exception raised here replaces that outcome.
\<close>

definition commit_finally ::
  "env \<Rightarrow> bool \<Rightarrow> exn option \<Rightarrow> scope \<Rightarrow> world \<Rightarrow> (exn + unit) \<times> scope \<times> world" where
  "commit_finally env create_new_transaction r self w =
     (if create_new_transaction
      then
        (case connection self of
           None \<Rightarrow> (Inl AttributeError, self, w)
         | Some con \<Rightarrow>
             (case call_unit env (TransactionStart (Transaction con)) w of
                (Some e, w1) \<Rightarrow> (Inl e, self\<lparr>transaction := Some (Transaction con)\<rparr>, w1)
              | (None, w1) \<Rightarrow>
                  ((case r of Some e \<Rightarrow> Inl e | None \<Rightarrow> Inr ()),
                   self\<lparr>transaction := Some (Transaction con)\<rparr>, w1)))
      else ((case r of Some e \<Rightarrow> Inl e | None \<Rightarrow> Inr ()),
            self\<lparr>done' := True, transaction := None\<rparr>, w))"

definition commit :: "env \<Rightarrow> scope \<Rightarrow> bool \<Rightarrow> world \<Rightarrow> (exn + unit) \<times> scope \<times> world" where
  "commit env self create_new_transaction w =
     (case transaction self of
        None \<Rightarrow> (Inl (DatabaseError ''No transaction to commit''), self, w)
      | Some t \<Rightarrow>
          (case call_unit env (TransactionCommit t) w of
             (Some e, w1) \<Rightarrow>
               commit_finally env create_new_transaction (Some e) (self\<lparr>callbacks := []\<rparr>) w1
           | (None, w1) \<Rightarrow>
               (case run_callbacks env (callbacks self) (self\<lparr>callbacks := []\<rparr>) w1 of
                  (r, self2, w2) \<Rightarrow> commit_finally env create_new_transaction r self2 w2)))"

text \<open>
  \<^verbatim>\<open>__aexit__(self, extype, ex, tb)\<close>; \<open>extype\<close> is whether an exception is in
  flight. The outcome of the \<^verbatim>\<open>try\<close> block stands unless the release in the
  \<^verbatim>\<open>finally\<close> block raises.
\<close>

definition aexit :: "env \<Rightarrow> scope \<Rightarrow> bool \<Rightarrow> world \<Rightarrow> exn option \<times> scope \<times> world" where
  "aexit env self extype w =
     (case (case transaction self of
              None \<Rightarrow> (None, self, w)
            | Some t \<Rightarrow>
                if extype \<or> autocommit self = False
                then (case call_unit env (TransactionRollback t) w of (r, w1) \<Rightarrow> (r, self, w1))
                else if autocommit self
                then (case commit env self False w of
                        (Inl e, self1, w1) \<Rightarrow> (Some e, self1, w1)
                      | (Inr u, self1, w1) \<Rightarrow> (None, self1, w1))
                else (None, self, w)) of
        (r, self1, w1) \<Rightarrow>
          (case call_unit env (PoolRelease (pool self1) (connection self1)) w1 of
             (Some e, w2) \<Rightarrow>
               (Some e, self1\<lparr>transaction := None, connection := None, done' := True\<rparr>, w2)
           | (None, w2) \<Rightarrow>
               (r, self1\<lparr>transaction := None, connection := None, done' := True\<rparr>, w2)))"

text \<open>
  The query methods forward to the connection while a transaction is set.
\<close>

definition execute ::
  "env \<Rightarrow> scope \<Rightarrow> string \<Rightarrow> sqlval list \<Rightarrow> timeout \<Rightarrow> world \<Rightarrow> (exn + string) \<times> world" where
  "execute env self query args tmo w =
     (case transaction self of
        Some t \<Rightarrow>
          (case connection self of
             None \<Rightarrow> (Inl AttributeError, w)
           | Some con \<Rightarrow> call_status env (Execute con query args tmo) w)
      | None \<Rightarrow> (Inl (DatabaseError ''No transaction in progress''), w))"

definition executemany ::
  "env \<Rightarrow> scope \<Rightarrow> string \<Rightarrow> sqlval list list \<Rightarrow> timeout \<Rightarrow> world \<Rightarrow> exn option \<times> world" where
  "executemany env self command args tmo w =
     (case transaction self of
        Some t \<Rightarrow>
          (case connection self of
             None \<Rightarrow> (Some AttributeError, w)
           | Some con \<Rightarrow> call_unit env (Executemany con command args tmo) w)
      | None \<Rightarrow> (Some (DatabaseError ''No transaction in progress''), w))"

definition fetch ::
  "env \<Rightarrow> scope \<Rightarrow> string \<Rightarrow> sqlval list \<Rightarrow> timeout \<Rightarrow> world \<Rightarrow> (exn + row list) \<times> world" where
  "fetch env self query args tmo w =
     (case transaction self of
        Some t \<Rightarrow>
          (case connection self of
             None \<Rightarrow> (Inl AttributeError, w)
           | Some con \<Rightarrow> call_rows env (Fetch con query args tmo) w)
      | None \<Rightarrow> (Inl (DatabaseError ''No transaction in progress''), w))"

definition fetchval ::
  "env \<Rightarrow> scope \<Rightarrow> string \<Rightarrow> sqlval list \<Rightarrow> nat \<Rightarrow> timeout \<Rightarrow> world \<Rightarrow> (exn + sqlval) \<times> world" where
  "fetchval env self query args column tmo w =
     (case transaction self of
        Some t \<Rightarrow>
          (case connection self of
             None \<Rightarrow> (Inl AttributeError, w)
           | Some con \<Rightarrow> call_val env (Fetchval con query args column tmo) w)
      | None \<Rightarrow> (Inl (DatabaseError ''No transaction in progress''), w))"

definition fetchrow ::
  "env \<Rightarrow> scope \<Rightarrow> string \<Rightarrow> sqlval list \<Rightarrow> timeout \<Rightarrow> world \<Rightarrow> (exn + row option) \<times> world" where
  "fetchrow env self query args tmo w =
     (case transaction self of
        Some t \<Rightarrow>
          (case connection self of
             None \<Rightarrow> (Inl AttributeError, w)
           | Some con \<Rightarrow> call_row env (Fetchrow con query args tmo) w)
      | None \<Rightarrow> (Inl (DatabaseError ''No transaction in progress''), w))"

subsection \<open>The update helper\<close>

text \<open>
  The values \<^verbatim>\<open>update_args\<close> and \<^verbatim>\<open>query_args\<close> can take: a dict (its items in
  insertion order), a list, tuple or \<^verbatim>\<open>ItemsView\<close> of pairs, \<^verbatim>\<open>None\<close>, or
  anything else.
\<close>

datatype pyargs =
    PyDict "(string \<times> sqlval) list"
  | PyList "(string \<times> sqlval) list"
  | PyTuple "(string \<times> sqlval) list"
  | PyItemsView "(string \<times> sqlval) list"
  | PyNone
  | PyOther

text \<open>
  \<^verbatim>\<open>if isinstance(a, dict): a = a.items()\<close>, then
  \<^verbatim>\<open>isinstance(a, (list, tuple, ItemsView))\<close>: the pairs to iterate, if so.
\<close>

fun pairs_of :: "pyargs \<Rightarrow> (string \<times> sqlval) list option" where
  "pairs_of (PyDict kvs) = Some kvs"
| "pairs_of (PyList kvs) = Some kvs"
| "pairs_of (PyTuple kvs) = Some kvs"
| "pairs_of (PyItemsView kvs) = Some kvs"
| "pairs_of PyNone = None"
| "pairs_of PyOther = None"

text \<open>
  \<^verbatim>\<open>for k, v in args: stmts.append("{} = ${}".format(k, qnum)); qnum += 1; arglist.append(v)\<close>
\<close>

fun render_pairs ::
  "(string \<times> sqlval) list \<Rightarrow> string list \<times> nat \<times> sqlval list \<Rightarrow> string list \<times> nat \<times> sqlval list" where
  "render_pairs [] acc = acc"
| "render_pairs ((k, v) # kvs) (stmts, qnum, arglist) =
     render_pairs kvs (stmts @ [k @ '' = $'' @ digits qnum], qnum + 1, arglist @ [v])"

fun str_join :: "string \<Rightarrow> string list \<Rightarrow> string" where
  "str_join sep [] = []"
| "str_join sep [x] = x"
| "str_join sep (x # y # ys) = x @ sep @ str_join sep (y # ys)"

definition startswith :: "string \<Rightarrow> string \<Rightarrow> bool" where
  "startswith s prefix = (take (length prefix) s = prefix)"

definition update ::
  "env \<Rightarrow> scope \<Rightarrow> string \<Rightarrow> pyargs \<Rightarrow> pyargs \<Rightarrow> world \<Rightarrow> (exn + string) \<times> world" where
  "update env self tablename update_args query_args w =
     (if transaction self = None
      then (Inl (DatabaseError ''No transaction in progress''), w)
      else
        case pairs_of update_args of
          None \<Rightarrow> (Inl (DatabaseError ''expected dict or list for update_args''), w)
        | Some ua \<Rightarrow>
            (case render_pairs ua ([], 1, []) of
               (setstmts, qnum, arglist) \<Rightarrow>
                 (case (case pairs_of query_args of
                          Some qa \<Rightarrow>
                            (case render_pairs qa ([], qnum, arglist) of
                               (wherestmts, qnum', arglist') \<Rightarrow>
                                 Inr (''UPDATE '' @ tablename @ '' SET '' @ str_join '', '' setstmts
                                        @ '' WHERE '' @ str_join '' AND '' wherestmts, arglist'))
                        | None \<Rightarrow>
                            if query_args \<noteq> PyNone
                            then Inl (DatabaseError ''expected dict or list or None for query_args'')
                            else Inr (''UPDATE '' @ tablename @ '' SET '' @ str_join '', '' setstmts,
                                      arglist)) of
                    Inl e \<Rightarrow> (Inl e, w)
                  | Inr (query, args) \<Rightarrow>
                      (case connection self of
                         None \<Rightarrow> (Inl AttributeError, w)
                       | Some con \<Rightarrow>
                           (case call_status env (Execute con query args None) w of
                              (Inl e, w1) \<Rightarrow> (Inl e, w1)
                            | (Inr resp, w1) \<Rightarrow>
                                if resp \<noteq> [] \<and> startswith [resp ! 0] ''ERROR:''
                                then (Inl (DatabaseError resp), w1)
                                else (Inr resp, w1))))))"

section \<open>Notions used to state the properties\<close>

text \<open>
  The events by which \<^verbatim>\<open>__aexit__\<close> resolves the transaction of \<open>self\<close>: none when no
  transaction is set, the rollback, or the commit followed by the first \<open>n\<close> pending
  callbacks.
\<close>

definition resolution :: "scope \<Rightarrow> bool \<Rightarrow> nat \<Rightarrow> event list" where
  "resolution self extype n =
     (case transaction self of
        None \<Rightarrow> []
      | Some t \<Rightarrow>
          if extype \<or> autocommit self = False
          then [TransactionRollback t]
          else TransactionCommit t # map Callback (take n (callbacks self)))"

fun is_release :: "event \<Rightarrow> bool" where
  "is_release (PoolRelease p c) = True"
| "is_release ev = False"

section \<open>Drivers used to run the model\<close>

text \<open>A driver that answers every call with success and an empty result.\<close>

definition quiet_env :: env where
  "quiet_env =
     \<lparr>files = (\<lambda>_. None),
      on_conn = (\<lambda>_ _. Inr (Connection 0 False)),
      on_unit = (\<lambda>_ _. None),
      on_status = (\<lambda>_ _. Inr ''OK''),
      on_row = (\<lambda>_ _. Inr None),
      on_rows = (\<lambda>_ _. Inr []),
      on_val = (\<lambda>_ _. Inr SNull),
      on_pool = (\<lambda>_ _. Inr 0),
      cb_body = (\<lambda>_. ([], None))\<rparr>"

definition world0 :: world where
  "world0 = \<lparr>trace = [], global_database_pool = None\<rparr>"

text \<open>A driver pool whose first two connections are closed and whose third is open.\<close>

definition stale_env :: env where
  "stale_env = quiet_env
     \<lparr>on_conn := (\<lambda>tr _. if length tr = 0 then Inr (Connection 1 True)
                        else if length tr = 2 then Inr (Connection 2 True)
                        else Inr (Connection 3 False))\<rparr>"

text \<open>A scope after a successful \<^verbatim>\<open>__aenter__\<close>, and one in autocommit mode with two
  callbacks pending.\<close>

definition entered_scope :: scope where
  "entered_scope =
     \<lparr>pool = 0, timeout = None, autocommit = False,
      connection = Some (Connection 7 False),
      transaction = Some (Transaction (Connection 7 False)),
      done' = False, callbacks = []\<rparr>"

definition autocommit_scope :: scope where
  "autocommit_scope = entered_scope\<lparr>autocommit := True, callbacks := [1, 2]\<rparr>"





text \<open>The elements of a list in the order of their first occurrence.\<close>

definition first_occurrences :: "'a list \<Rightarrow> 'a list" where
  "first_occurrences xs = rev (remdups (rev xs))"

text \<open>
  The event of starting the new transaction in \<^verbatim>\<open>commit(create_new_transaction)\<close>.
\<close>

definition new_transaction_events :: "scope \<Rightarrow> bool \<Rightarrow> event list" where
  "new_transaction_events self create_new_transaction =
     (if create_new_transaction
      then (case connection self of None \<Rightarrow> [] | Some con \<Rightarrow> [TransactionStart (Transaction con)])
      else [])"

text \<open>Callback 4 registers the callbacks 6 and 5 when it runs; the others register nothing.\<close>

definition chatty_env :: env where
  "chatty_env = quiet_env\<lparr>cb_body := (\<lambda>c. if c = 4 then ([6, 5], None) else ([], None))\<rparr>"

text \<open>A driver whose first commit fails and whose later commits succeed.\<close>

definition flaky_commit_env :: env where
  "flaky_commit_env = quiet_env
     \<lparr>on_unit := (\<lambda>tr ev. if ev = TransactionCommit (Transaction (Connection 7 False)) \<and> ev \<notin> set tr
                         then Some (OtherError ''could not serialize access'') else None)\<rparr>"

definition failed_commit_run :: "(exn + unit) \<times> scope \<times> world" where
  "failed_commit_run = commit flaky_commit_env (on_commit entered_scope 4) True world0"

definition next_commit_run :: "(exn + unit) \<times> scope \<times> world" where
  "next_commit_run =
     commit flaky_commit_env (fst (snd failed_commit_run)) False (snd (snd failed_commit_run))"

text \<open>A driver whose pools raise \<^verbatim>\<open>ConnectionDoesNotExistError\<close> on every acquisition,
  and one whose first acquisition alone does.\<close>

definition broken_link_env :: env where
  "broken_link_env = quiet_env\<lparr>on_conn := (\<lambda>tr ev. Inl ConnectionDoesNotExistError)\<rparr>"

definition broken_once_env :: env where
  "broken_once_env = quiet_env
     \<lparr>on_conn := (\<lambda>tr ev. if tr = [] then Inl ConnectionDoesNotExistError
                         else Inr (Connection 8 False))\<rparr>"

text \<open>
  The events of applying \<open>n\<close> migration scripts after version \<open>v\<close>, the script numbered
  \<open>k\<close> having the text \<open>sql k\<close>.
\<close>

definition script_events :: "conn \<Rightarrow> (int \<Rightarrow> string) \<Rightarrow> int \<Rightarrow> event list" where
  "script_events con sql k =
     [LogInfo (''applying migration script: '' @ format_08 k), Execute con (sql k) [] None]"

fun applied_events :: "conn \<Rightarrow> (int \<Rightarrow> string) \<Rightarrow> int \<Rightarrow> nat \<Rightarrow> event list" where
  "applied_events con sql v 0 = []"
| "applied_events con sql v (Suc n) = script_events con sql (v + 1) @ applied_events con sql (v + 1) n"

text \<open>The events of one poll of the waiter that does not find the expected version.\<close>

definition poll_events :: "conn \<Rightarrow> nat \<Rightarrow> event list" where
  "poll_events con poll_frequency =
     [Fetchrow con SELECT_VERSION [] None, LogInfo ''waiting for database migration...'',
      Sleep poll_frequency]"

text \<open>
  What the version query answered: the table does not exist yet or holds another version
  (\<open>not_ready\<close>), or it holds the expected version (\<open>ready\<close>).
\<close>

definition not_ready :: "int \<Rightarrow> exn + row option \<Rightarrow> bool" where
  "not_ready version a =
     (case a of
        Inl e \<Rightarrow> e = UndefinedTableError
      | Inr r \<Rightarrow> (case subscript r ''version_number'' of Inl e \<Rightarrow> False | Inr v \<Rightarrow> v \<noteq> SInt version))"

definition ready :: "int \<Rightarrow> exn + row option \<Rightarrow> bool" where
  "ready version a =
     (case a of Inl e \<Rightarrow> False | Inr r \<Rightarrow> subscript r ''version_number'' = Inr (SInt version))"





definition migration_files :: "string \<Rightarrow> string option" where
  "migration_files path =
     (if path = ''sql/create_tables.sql'' then Some ''CREATE TABLE a (id INTEGER)''
      else if path = ''sql/migrate_00000001.sql'' then Some ''M1''
      else if path = ''sql/migrate_00000002.sql'' then Some ''M2''
      else if path = ''sql/migrate_00000003.sql'' then Some ''M3''
      else None)"

definition migrating_env :: env where
  "migrating_env = quiet_env
     \<lparr>files := migration_files,
      on_row := (\<lambda>tr ev. Inr (Some [(''version_number'', SInt 1)]))\<rparr>"



definition no_bootstrap_env :: env where
  "no_bootstrap_env = migrating_env
     \<lparr>files := (\<lambda>path. if path = ''sql/create_tables.sql'' then None else migration_files path)\<rparr>"

text \<open>
  The events of \<^verbatim>\<open>create_tables\<close> on a fresh database, up to the bootstrap script of text
  \<open>bootstrap\<close>, and the two warnings about a version \<open>v\<close> that is not the latest script.
\<close>

definition fresh_events :: "conn \<Rightarrow> string \<Rightarrow> event list" where
  "fresh_events con bootstrap =
     [Fetchrow con SELECT_VERSION [] None,
      Execute con ''CREATE TABLE database_version (version_number INTEGER)'' [] None,
      Execute con ''INSERT INTO database_version (version_number) VALUES (0)'' [] None,
      Execute con bootstrap [] None]"

definition version_warnings :: "sqlval \<Rightarrow> int \<Rightarrow> event list" where
  "version_warnings v version =
     [LogWarning ''Warning, migration scripts exist but database version has not been set in create_tables.sql'',
      LogWarning (''DB version: '' @ str_sqlval v @ '', latest migration script: '' @ str_int version)]"

text \<open>
  A fresh database with the bootstrap script alone, and one with the migration scripts
  1, 2 and 3 as well, whose bootstrap script leaves the version at 0.
\<close>

definition bare_env :: env where
  "bare_env = quiet_env
     \<lparr>files := (\<lambda>path. if path = ''sql/create_tables.sql''
                       then Some ''CREATE TABLE a (id INTEGER)'' else None),
      on_row := (\<lambda>tr ev. if tr = [] then Inl UndefinedTableError
                        else Inr (Some [(''version_number'', SInt 0)]))\<rparr>"

definition fresh_env :: env where
  "fresh_env = bare_env\<lparr>files := migration_files\<rparr>"

text \<open>
  The database of a process that waits: the version table is missing at the first poll,
  holds 2 at the second and 3 at the third.
\<close>

definition waiting_env :: env where
  "waiting_env = quiet_env
     \<lparr>files := migration_files,
      on_row := (\<lambda>tr ev. if length tr = 0 then Inl UndefinedTableError
                        else if length tr = 3 then Inr (Some [(''version_number'', SInt 2)])
                        else Inr (Some [(''version_number'', SInt 3)]))\<rparr>"


section \<open>Properties of SafePool\<close>

lemma SafePool_acquire_result_open:
  assumes "SafePool_acquire env self tmo w = Some r"
  shows "case r of (Inl e, w') \<Rightarrow> True | (Inr con, w') \<Rightarrow> \<not> is_closed con"
proof (rule SafePool_acquire.raw_induct
    [where P = "\<lambda>_ _ _ _ r. case r of (Inl e, w') \<Rightarrow> True | (Inr con, w') \<Rightarrow> \<not> is_closed con",
     OF _ assms])
  fix acq :: "env \<Rightarrow> pool \<Rightarrow> timeout \<Rightarrow> world \<Rightarrow> ((exn + conn) \<times> world) option"
  fix env self tmo w r
  assume IH: "\<And>env self tmo w y. acq env self tmo w = Some y \<Longrightarrow>
      (case y of (Inl e, w') \<Rightarrow> True | (Inr con, w') \<Rightarrow> \<not> is_closed con)"
  assume body: "(case call_conn env (PoolSuperAcquire self tmo) w of
        (Inl e, w1) \<Rightarrow> Some (Inl e, w1)
      | (Inr con, w1) \<Rightarrow>
          if is_closed con
          then (case call_unit env (PoolRelease self (Some con)) w1 of
                  (None, w2) \<Rightarrow> acq env self tmo w2
                | (Some e, w2) \<Rightarrow> Some (Inl e, w2))
          else Some (Inr con, w1)) = Some r"
  from body show "case r of (Inl e, w') \<Rightarrow> True | (Inr con, w') \<Rightarrow> \<not> is_closed con"
    by (auto split: prod.splits sum.splits if_splits option.splits dest: IH)
qed

lemma discard_events_Cons:
  "discard_events self tmo (c # cs) =
     PoolSuperAcquire self tmo # PoolRelease self (Some c) # discard_events self tmo cs"
  by (simp add: discard_events_def)

lemma SafePool_acquire_retries:
  "(\<forall>i<length cs.
       on_conn env (trace w @ discard_events self tmo (take i cs)) (PoolSuperAcquire self tmo) = Inr (cs ! i)
     \<and> is_closed (cs ! i)
     \<and> on_unit env (trace w @ discard_events self tmo (take i cs) @ [PoolSuperAcquire self tmo])
          (PoolRelease self (Some (cs ! i))) = None) \<Longrightarrow>
   on_conn env (trace w @ discard_events self tmo cs) (PoolSuperAcquire self tmo) = Inr c \<Longrightarrow>
   \<not> is_closed c \<Longrightarrow>
   SafePool_acquire env self tmo w =
     Some (Inr c, w\<lparr>trace := trace w @ discard_events self tmo cs @ [PoolSuperAcquire self tmo]\<rparr>)"
proof (induction cs arbitrary: w)
  case Nil
  then show ?case
    by (subst SafePool_acquire.simps) (simp add: call_conn_def emit_def discard_events_def)
next
  case (Cons c0 cs)
  let ?w2 = "emit (PoolRelease self (Some c0)) (emit (PoolSuperAcquire self tmo) w)"
  from Cons.prems(1)[rule_format, of 0]
  have h0: "on_conn env (trace w) (PoolSuperAcquire self tmo) = Inr c0" "is_closed c0"
    "on_unit env (trace w @ [PoolSuperAcquire self tmo]) (PoolRelease self (Some c0)) = None"
    by (simp_all add: discard_events_def)
  have step: "SafePool_acquire env self tmo w = SafePool_acquire env self tmo ?w2"
    by (subst SafePool_acquire.simps) (simp add: call_conn_def call_unit_def emit_def h0)
  have tr2: "trace ?w2 = trace w @ [PoolSuperAcquire self tmo, PoolRelease self (Some c0)]"
    by (simp add: emit_def)
  have "SafePool_acquire env self tmo ?w2 =
     Some (Inr c, ?w2\<lparr>trace := trace ?w2 @ discard_events self tmo cs @ [PoolSuperAcquire self tmo]\<rparr>)"
  proof (rule Cons.IH)
    show "\<forall>i<length cs.
       on_conn env (trace ?w2 @ discard_events self tmo (take i cs)) (PoolSuperAcquire self tmo) = Inr (cs ! i)
     \<and> is_closed (cs ! i)
     \<and> on_unit env (trace ?w2 @ discard_events self tmo (take i cs) @ [PoolSuperAcquire self tmo])
          (PoolRelease self (Some (cs ! i))) = None"
    proof (intro allI impI)
      fix i assume "i < length cs"
      then have "Suc i < length (c0 # cs)" by simp
      from Cons.prems(1)[rule_format, OF this] show
        "on_conn env (trace ?w2 @ discard_events self tmo (take i cs)) (PoolSuperAcquire self tmo) = Inr (cs ! i)
     \<and> is_closed (cs ! i)
     \<and> on_unit env (trace ?w2 @ discard_events self tmo (take i cs) @ [PoolSuperAcquire self tmo])
          (PoolRelease self (Some (cs ! i))) = None"
        by (simp add: tr2 discard_events_Cons)
    qed
    show "on_conn env (trace ?w2 @ discard_events self tmo cs) (PoolSuperAcquire self tmo) = Inr c"
      using Cons.prems(2) by (simp add: tr2 discard_events_Cons)
    show "\<not> is_closed c" by (rule Cons.prems(3))
  qed
  then show ?case
    by (simp add: step emit_def discard_events_Cons)
qed

text \<open>
  C1. A connection returned by \<^verbatim>\<open>SafePool._acquire\<close> is never closed. When the driver
  pool hands back the closed connections \<open>cs\<close> one after the other (each released without
  error) and then the open connection \<open>c\<close>, the call returns \<open>c\<close>, whatever the length of
  \<open>cs\<close>, having released every closed connection right after it was handed back.
\<close>

theorem SafePool_acquire_never_closed:
  "(\<forall>con w'. SafePool_acquire env self tmo w = Some (Inr con, w') \<longrightarrow> \<not> is_closed con) \<and>
   ((\<forall>i<length cs.
        on_conn env (trace w @ discard_events self tmo (take i cs)) (PoolSuperAcquire self tmo) = Inr (cs ! i)
      \<and> is_closed (cs ! i)
      \<and> on_unit env (trace w @ discard_events self tmo (take i cs) @ [PoolSuperAcquire self tmo])
           (PoolRelease self (Some (cs ! i))) = None) \<and>
    on_conn env (trace w @ discard_events self tmo cs) (PoolSuperAcquire self tmo) = Inr c \<and>
    \<not> is_closed c
    \<longrightarrow> SafePool_acquire env self tmo w =
          Some (Inr c, w\<lparr>trace := trace w @ discard_events self tmo cs @ [PoolSuperAcquire self tmo]\<rparr>))"
proof (intro conjI allI impI)
  fix con w'
  assume "SafePool_acquire env self tmo w = Some (Inr con, w')"
  from SafePool_acquire_result_open[OF this] show "\<not> is_closed con" by simp
next
  assume h: "(\<forall>i<length cs.
        on_conn env (trace w @ discard_events self tmo (take i cs)) (PoolSuperAcquire self tmo) = Inr (cs ! i)
      \<and> is_closed (cs ! i)
      \<and> on_unit env (trace w @ discard_events self tmo (take i cs) @ [PoolSuperAcquire self tmo])
           (PoolRelease self (Some (cs ! i))) = None) \<and>
    on_conn env (trace w @ discard_events self tmo cs) (PoolSuperAcquire self tmo) = Inr c \<and>
    \<not> is_closed c"
  then show "SafePool_acquire env self tmo w =
          Some (Inr c, w\<lparr>trace := trace w @ discard_events self tmo cs @ [PoolSuperAcquire self tmo]\<rparr>)"
    by (intro SafePool_acquire_retries) blast+
qed

theorem SafePool_acquire_never_closed_witness:
  "SafePool_acquire stale_env 0 None world0 =
     Some (Inr (Connection 3 False),
           \<lparr>trace = [PoolSuperAcquire 0 None, PoolRelease 0 (Some (Connection 1 True)),
                     PoolSuperAcquire 0 None, PoolRelease 0 (Some (Connection 2 True)),
                     PoolSuperAcquire 0 None],
            global_database_pool = None\<rparr>)
   \<and> \<not> is_closed (Connection 3 False)"
proof -
  let ?cs = "[Connection 1 True, Connection 2 True]"
  have conn: "\<And>tr ev. on_conn stale_env tr ev =
      (if length tr = 0 then Inr (Connection 1 True)
       else if length tr = 2 then Inr (Connection 2 True) else Inr (Connection 3 False))"
    by (simp add: stale_env_def)
  have unit: "\<And>tr ev. on_unit stale_env tr ev = None"
    by (simp add: stale_env_def quiet_env_def)
  have tr0: "trace world0 = []"
    by (simp add: world0_def)
  have hyp: "\<forall>i<length ?cs.
        on_conn stale_env (trace world0 @ discard_events 0 None (take i ?cs)) (PoolSuperAcquire 0 None) = Inr (?cs ! i)
      \<and> is_closed (?cs ! i)
      \<and> on_unit stale_env (trace world0 @ discard_events 0 None (take i ?cs) @ [PoolSuperAcquire 0 None])
           (PoolRelease 0 (Some (?cs ! i))) = None"
  proof (intro allI impI)
    fix i :: nat
    assume "i < length ?cs"
    then have "i = 0 \<or> i = 1" by auto
    then show "on_conn stale_env (trace world0 @ discard_events 0 None (take i ?cs)) (PoolSuperAcquire 0 None) = Inr (?cs ! i)
      \<and> is_closed (?cs ! i)
      \<and> on_unit stale_env (trace world0 @ discard_events 0 None (take i ?cs) @ [PoolSuperAcquire 0 None])
           (PoolRelease 0 (Some (?cs ! i))) = None"
      by (auto simp: conn unit tr0 discard_events_def)
  qed
  have last: "on_conn stale_env (trace world0 @ discard_events 0 None ?cs) (PoolSuperAcquire 0 None)
      = Inr (Connection 3 False)"
    by (simp add: conn tr0 discard_events_def)
  have nc: "\<not> is_closed (Connection 3 False)" by simp
  have run: "SafePool_acquire stale_env 0 None world0 =
          Some (Inr (Connection 3 False),
                world0\<lparr>trace := trace world0 @ discard_events 0 None ?cs @ [PoolSuperAcquire 0 None]\<rparr>)"
    by (rule SafePool_acquire_never_closed[THEN conjunct2, THEN mp, OF conjI[OF hyp conjI[OF last nc]]])
  from run SafePool_acquire_never_closed[THEN conjunct1, rule_format, OF run] show ?thesis
    by (simp add: world0_def discard_events_def)
qed

section \<open>Properties of the transaction scope\<close>

lemma quiet_env_simps:
  "on_unit quiet_env tr ev = None"
  "cb_body quiet_env c = ([], None)"
  "on_conn quiet_env tr ev = Inr (Connection 0 False)"
  "on_status quiet_env tr ev = Inr ''OK''"
  "files quiet_env p = None"
  by (simp_all add: quiet_env_def)

text \<open>
  C10. Entering a scope whose connection is set raises
  \<^verbatim>\<open>DatabaseError("Connection already in progress")\<close> before the pool is asked for a
  connection: no event is recorded and the scope (connection, transaction, callbacks) is
  unchanged.
\<close>

theorem aenter_already_entered:
  "connection self \<noteq> None \<Longrightarrow>
   aenter env self w = Some (Inl (DatabaseError ''Connection already in progress''), self, w)"
  by (simp add: aenter_def)

theorem aenter_already_entered_witness:
  "connection entered_scope \<noteq> None \<and>
   aenter quiet_env entered_scope world0 =
     Some (Inl (DatabaseError ''Connection already in progress''), entered_scope, world0)"
  using aenter_already_entered[of entered_scope quiet_env world0]
  by (simp add: entered_scope_def)

lemma foldl_on_commit_fields:
  "pool (foldl on_commit self cs) = pool self \<and>
   timeout (foldl on_commit self cs) = timeout self \<and>
   autocommit (foldl on_commit self cs) = autocommit self \<and>
   connection (foldl on_commit self cs) = connection self \<and>
   transaction (foldl on_commit self cs) = transaction self \<and>
   done' (foldl on_commit self cs) = done' self"
  by (induction cs arbitrary: self) (simp_all add: on_commit_def)

lemma run_callbacks_effect:
  "run_callbacks env cs self w = (r, self', w') \<Longrightarrow>
   (\<exists>n\<le>length cs. trace w' = trace w @ map Callback (take n cs) \<and> (r = None \<longrightarrow> n = length cs)) \<and>
   global_database_pool w' = global_database_pool w \<and>
   pool self' = pool self \<and> timeout self' = timeout self \<and> autocommit self' = autocommit self \<and>
   connection self' = connection self \<and> transaction self' = transaction self \<and>
   done' self' = done' self"
proof (induction cs arbitrary: self w)
  case Nil
  then show ?case by simp
next
  case (Cons c cs)
  let ?s1 = "foldl on_commit self (fst (cb_body env c))"
  let ?w1 = "emit (Callback c) w"
  show ?case
  proof (cases "snd (cb_body env c)")
    case (Some e)
    with Cons.prems have "r = Some e" "self' = ?s1" "w' = ?w1"
      by (simp_all add: call_callback_def)
    then show ?thesis
      by (auto simp: emit_def foldl_on_commit_fields intro!: exI[of _ "Suc 0"])
  next
    case None
    with Cons.prems have "run_callbacks env cs ?s1 ?w1 = (r, self', w')"
      by (simp add: call_callback_def)
    from Cons.IH[OF this] obtain n where n: "n \<le> length cs"
      "trace w' = trace ?w1 @ map Callback (take n cs)" "r = None \<longrightarrow> n = length cs"
      and rest: "global_database_pool w' = global_database_pool ?w1"
        "pool self' = pool ?s1" "timeout self' = timeout ?s1" "autocommit self' = autocommit ?s1"
        "connection self' = connection ?s1" "transaction self' = transaction ?s1"
        "done' self' = done' ?s1"
      by blast
    from n have "Suc n \<le> length (c # cs) \<and> trace w' = trace w @ map Callback (take (Suc n) (c # cs))
        \<and> (r = None \<longrightarrow> Suc n = length (c # cs))"
      by (simp add: emit_def)
    then have "\<exists>m\<le>length (c # cs). trace w' = trace w @ map Callback (take m (c # cs))
        \<and> (r = None \<longrightarrow> m = length (c # cs))"
      by blast
    with rest show ?thesis
      by (simp add: foldl_on_commit_fields emit_def)
  qed
qed


lemma commit_effect:
  assumes "transaction self = Some t" and "commit env self False w = (r, self', w')"
  shows "(\<exists>n. trace w' = trace w @ TransactionCommit t # map Callback (take n (callbacks self))) \<and>
     global_database_pool w' = global_database_pool w \<and>
     pool self' = pool self \<and> connection self' = connection self \<and>
     transaction self' = None \<and> done' self'"
proof (cases "on_unit env (trace w) (TransactionCommit t)")
  case (Some e)
  with assms have "self' = self\<lparr>callbacks := [], done' := True, transaction := None\<rparr>"
    "w' = emit (TransactionCommit t) w"
    by (simp_all add: commit_def call_unit_def commit_finally_def)
  then show ?thesis
    by (auto simp: emit_def intro: exI[of _ 0])
next
  case None
  obtain r2 s2 w2 where rc: "run_callbacks env (callbacks self) (self\<lparr>callbacks := []\<rparr>)
      (emit (TransactionCommit t) w) = (r2, s2, w2)"
    by (cases "run_callbacks env (callbacks self) (self\<lparr>callbacks := []\<rparr>) (emit (TransactionCommit t) w)")
  with assms None have fin: "self' = s2\<lparr>done' := True, transaction := None\<rparr>" "w' = w2"
    by (simp_all add: commit_def call_unit_def commit_finally_def)
  from run_callbacks_effect[OF rc] fin show ?thesis
    by (auto simp: emit_def)
qed

lemma is_release_Callback: "filter is_release (map Callback cs) = []"
  by (induction cs) simp_all

lemma aexit_final_state:
  "transaction (fst (snd (aexit env self extype w))) = None \<and>
   connection (fst (snd (aexit env self extype w))) = None \<and>
   done' (fst (snd (aexit env self extype w)))"
proof (cases "transaction self")
  case None
  then show ?thesis
    by (auto simp: aexit_def call_unit_def split: option.splits)
next
  case (Some t)
  obtain r1 s1 w1 where c: "commit env self False w = (r1, s1, w1)"
    by (cases "commit env self False w")
  with Some show ?thesis
    by (auto simp: aexit_def call_unit_def split: option.splits sum.splits)
qed

text \<open>
  C2. Whatever the body did, \<^verbatim>\<open>__aexit__\<close> first resolves the transaction and then
  releases the connection of the scope to its pool, exactly once: a transaction still set is
  rolled back when an exception is in flight or autocommit is false, and committed (its
  pending callbacks called after the commit) when autocommit is true and no exception is in
  flight. The release is the last event, also when the rollback, the commit or a callback
  raised, and the scope ends with no transaction, no connection and \<^verbatim>\<open>done\<close> set.
\<close>

theorem aexit_resolves_then_releases_once:
  "case aexit env self extype w of
     (r, self', w') \<Rightarrow>
       (\<exists>n. trace w' = trace w @ resolution self extype n @ [PoolRelease (pool self) (connection self)]
          \<and> filter is_release (resolution self extype n @ [PoolRelease (pool self) (connection self)])
              = [PoolRelease (pool self) (connection self)])
       \<and> transaction self' = None \<and> connection self' = None \<and> done' self'"
proof (cases "transaction self")
  case None
  then show ?thesis
    by (auto simp: aexit_def call_unit_def emit_def resolution_def split: option.splits)
next
  case (Some t)
  show ?thesis
  proof (cases "extype \<or> autocommit self = False")
    case True
    with Some show ?thesis
      by (auto simp: aexit_def call_unit_def emit_def resolution_def split: option.splits)
  next
    case False
    obtain r1 s1 w1 where c: "commit env self False w = (r1, s1, w1)"
      by (cases "commit env self False w")
    from commit_effect[OF Some c] obtain n where
      n: "trace w1 = trace w @ TransactionCommit t # map Callback (take n (callbacks self))"
      and f: "pool s1 = pool self" "connection s1 = connection self"
      by blast
    have res: "resolution self extype n = TransactionCommit t # map Callback (take n (callbacks self))"
      using Some False by (simp add: resolution_def)
    have "trace (snd (snd (aexit env self extype w))) =
        trace w @ (TransactionCommit t # map Callback (take n (callbacks self)))
          @ [PoolRelease (pool self) (connection self)]"
      using Some False c n f
      by (auto simp: aexit_def call_unit_def emit_def split: option.splits sum.splits)
    then have tr: "trace (snd (snd (aexit env self extype w))) =
        trace w @ resolution self extype n @ [PoolRelease (pool self) (connection self)]"
      by (simp only: res)
    have fl: "filter is_release (resolution self extype n @ [PoolRelease (pool self) (connection self)])
        = [PoolRelease (pool self) (connection self)]"
      by (simp add: res is_release_Callback)
    have st: "transaction (fst (snd (aexit env self extype w))) = None"
      "connection (fst (snd (aexit env self extype w))) = None"
      "done' (fst (snd (aexit env self extype w)))"
      using Some False c
      by (auto simp: aexit_def call_unit_def split: option.splits sum.splits)
    from tr fl st show ?thesis
      by (cases "aexit env self extype w") auto
  qed
qed

theorem aexit_resolves_then_releases_once_witness:
  "case aexit quiet_env autocommit_scope False world0 of
     (r, self', w') \<Rightarrow>
       trace w' = [TransactionCommit (Transaction (Connection 7 False)), Callback 1, Callback 2,
                   PoolRelease 0 (Some (Connection 7 False))]
       \<and> transaction self' = None \<and> connection self' = None \<and> done' self'"
proof -
  obtain r s w where a: "aexit quiet_env autocommit_scope False world0 = (r, s, w)"
    by (cases "aexit quiet_env autocommit_scope False world0")
  from aexit_resolves_then_releases_once[where env = quiet_env and self = autocommit_scope and extype = False and w = world0] a
  obtain n where n: "trace w = trace world0 @ resolution autocommit_scope False n
        @ [PoolRelease (pool autocommit_scope) (connection autocommit_scope)]"
    and st: "transaction s = None" "connection s = None" "done' s"
    by auto
  have "trace w = [TransactionCommit (Transaction (Connection 7 False)), Callback 1, Callback 2,
                   PoolRelease 0 (Some (Connection 7 False))]"
    using a
    by (auto simp: aexit_def autocommit_scope_def entered_scope_def commit_def call_unit_def
        quiet_env_simps emit_def world0_def call_callback_def commit_finally_def)
  with st a show ?thesis by simp
qed

text \<open>
  C5. A scope that was never entered, one that was exited and one after a commit without a
  new transaction have no transaction set; on a scope with no transaction set every query
  method raises \<^verbatim>\<open>DatabaseError("No transaction in progress")\<close> and \<^verbatim>\<open>commit\<close>
  raises \<^verbatim>\<open>DatabaseError("No transaction to commit")\<close>, with no call to the driver
  and no change of the scope.
\<close>

theorem no_transaction_raises:
  "transaction (HandlerDatabasePoolContext p ac tmo0) = None \<and>
   transaction (fst (snd (aexit env0 self0 extype w0))) = None \<and>
   transaction (fst (snd (commit env0 self0 False w0))) = None \<and>
   (transaction self = None \<longrightarrow>
      execute env self query args tmo w = (Inl (DatabaseError ''No transaction in progress''), w) \<and>
      executemany env self query argss tmo w = (Some (DatabaseError ''No transaction in progress''), w) \<and>
      fetch env self query args tmo w = (Inl (DatabaseError ''No transaction in progress''), w) \<and>
      fetchval env self query args column tmo w = (Inl (DatabaseError ''No transaction in progress''), w) \<and>
      fetchrow env self query args tmo w = (Inl (DatabaseError ''No transaction in progress''), w) \<and>
      update env self tablename update_args query_args w
        = (Inl (DatabaseError ''No transaction in progress''), w) \<and>
      commit env self create_new w = (Inl (DatabaseError ''No transaction to commit''), self, w))"
proof (intro conjI impI)
  show "transaction (HandlerDatabasePoolContext p ac tmo0) = None"
    by (simp add: HandlerDatabasePoolContext_def)
  show "transaction (fst (snd (aexit env0 self0 extype w0))) = None"
    using aexit_final_state[where env = env0 and self = self0 and extype = extype and w = w0]
    by simp
  show "transaction (fst (snd (commit env0 self0 False w0))) = None"
  proof (cases "transaction self0")
    case None
    then show ?thesis by (simp add: commit_def)
  next
    case (Some t)
    obtain r s w where c: "commit env0 self0 False w0 = (r, s, w)"
      by (cases "commit env0 self0 False w0")
    from commit_effect[OF Some c] c show ?thesis by simp
  qed
qed (simp_all add: execute_def executemany_def fetch_def fetchval_def fetchrow_def update_def commit_def)

theorem no_transaction_raises_witness:
  "transaction (HandlerDatabasePoolContext 0 False None) = None \<and>
   execute quiet_env (HandlerDatabasePoolContext 0 False None) ''SELECT 1'' [] None world0
     = (Inl (DatabaseError ''No transaction in progress''), world0) \<and>
   update quiet_env (HandlerDatabasePoolContext 0 False None) ''t'' (PyDict [(''a'', SInt 1)]) PyNone world0
     = (Inl (DatabaseError ''No transaction in progress''), world0) \<and>
   commit quiet_env (HandlerDatabasePoolContext 0 False None) False world0
     = (Inl (DatabaseError ''No transaction to commit''), HandlerDatabasePoolContext 0 False None, world0)"
  using no_transaction_raises[where self = "HandlerDatabasePoolContext 0 False None"
      and env = quiet_env and w = world0 and p = 0 and ac = False and tmo0 = None
      and query = "''SELECT 1''" and args = "[]" and tmo = None and tablename = "''t''"
      and update_args = "PyDict [(''a'', SInt 1)]" and query_args = PyNone and create_new = False]
  by simp

subsection \<open>The update helper\<close>





lemma digits_small: "n < 10 \<Longrightarrow> digits n = [digit_char n]"
  by (simp add: digits.simps)

lemma entered_scope_simps:
  "transaction entered_scope = Some (Transaction (Connection 7 False))"
  "connection entered_scope = Some (Connection 7 False)"
  "callbacks entered_scope = []"
  "pool entered_scope = 0"
  by (simp_all add: entered_scope_def)



text \<open>
  The test \<^verbatim>\<open>resp[0].startswith("ERROR:")\<close> looks at the first character of the status
  string, which is never as long as the prefix: no status makes it true.
\<close>

lemma update_response_check:
  "\<not> (resp \<noteq> [] \<and> startswith [resp ! 0] ''ERROR:'')"
  by (simp add: startswith_def)

subsection \<open>Commit callbacks\<close>

lemma first_occurrences_snoc:
  "first_occurrences (xs @ [x]) =
     (if x \<in> set xs then first_occurrences xs else first_occurrences xs @ [x])"
  by (simp add: first_occurrences_def)

lemma set_first_occurrences: "set (first_occurrences xs) = set xs"
  by (simp add: first_occurrences_def)

lemma distinct_first_occurrences: "distinct (first_occurrences xs)"
  by (simp add: first_occurrences_def)

lemma callbacks_on_commit:
  "callbacks (on_commit self c) =
     (if c \<in> set (callbacks self) then callbacks self else callbacks self @ [c])"
  by (simp add: on_commit_def)

lemma callbacks_foldl_on_commit:
  "callbacks self = [] \<Longrightarrow> callbacks (foldl on_commit self regs) = first_occurrences regs"
proof (induction regs rule: rev_induct)
  case Nil
  then show ?case by (simp add: first_occurrences_def)
next
  case (snoc x xs)
  then show ?case
    by (simp add: callbacks_on_commit first_occurrences_snoc set_first_occurrences)
qed

lemma count_list_distinct: "distinct xs \<Longrightarrow> x \<in> set xs \<Longrightarrow> count_list xs x = 1"
  by (induction xs) auto

lemma run_callbacks_all:
  "\<forall>c\<in>set cs. snd (cb_body env c) = None \<Longrightarrow>
   run_callbacks env cs self w =
     (None, foldl on_commit self (concat (map (\<lambda>c. fst (cb_body env c)) cs)),
      w\<lparr>trace := trace w @ map Callback cs\<rparr>)"
proof (induction cs arbitrary: self w)
  case Nil
  then show ?case by simp
next
  case (Cons c cs)
  then show ?case
    by (simp add: call_callback_def emit_def)
qed

lemma commit_finally_effect:
  "commit_finally env create_new r self w = (r', self', w') \<Longrightarrow>
   trace w' = trace w @ new_transaction_events self create_new \<and> callbacks self' = callbacks self"
  by (auto simp: commit_finally_def new_transaction_events_def call_unit_def emit_def
      split: if_splits option.splits)

lemma commit_runs_callbacks:
  assumes t: "transaction self = Some t"
    and ok: "on_unit env (trace w) (TransactionCommit t) = None"
    and quiet: "\<forall>c\<in>set (callbacks self). snd (cb_body env c) = None"
    and c: "commit env self create_new w = (r, self', w')"
  shows "trace w' = trace w @ TransactionCommit t # map Callback (callbacks self)
            @ new_transaction_events self create_new"
    and "callbacks self' =
           first_occurrences (concat (map (\<lambda>c. fst (cb_body env c)) (callbacks self)))"
proof -
  let ?regs = "concat (map (\<lambda>c. fst (cb_body env c)) (callbacks self))"
  let ?s2 = "foldl on_commit (self\<lparr>callbacks := []\<rparr>) ?regs"
  let ?w2 = "(emit (TransactionCommit t) w)\<lparr>trace := trace (emit (TransactionCommit t) w)
                 @ map Callback (callbacks self)\<rparr>"
  have rc: "run_callbacks env (callbacks self) (self\<lparr>callbacks := []\<rparr>) (emit (TransactionCommit t) w)
      = (None, ?s2, ?w2)"
    by (rule run_callbacks_all[OF quiet])
  from c t ok rc have fin: "commit_finally env create_new None ?s2 ?w2 = (r, self', w')"
    by (simp add: commit_def call_unit_def)
  have con: "connection ?s2 = connection self"
    using foldl_on_commit_fields[of "self\<lparr>callbacks := []\<rparr>" ?regs] by simp
  have nte: "new_transaction_events ?s2 create_new = new_transaction_events self create_new"
    by (simp add: new_transaction_events_def con)
  from commit_finally_effect[OF fin] show "trace w' = trace w @ TransactionCommit t
      # map Callback (callbacks self) @ new_transaction_events self create_new"
    by (simp add: emit_def nte)
  from commit_finally_effect[OF fin] show "callbacks self' = first_occurrences ?regs"
    by (simp add: callbacks_foldl_on_commit)
qed

lemma commit_fails_drops:
  assumes t: "transaction self = Some t"
    and ko: "on_unit env (trace w) (TransactionCommit t) = Some e"
    and c: "commit env self create_new w = (r, self', w')"
  shows "trace w' = trace w @ TransactionCommit t # new_transaction_events self create_new"
    and "callbacks self' = []"
proof -
  from c t ko have fin: "commit_finally env create_new (Some e) (self\<lparr>callbacks := []\<rparr>)
      (emit (TransactionCommit t) w) = (r, self', w')"
    by (simp add: commit_def call_unit_def)
  from commit_finally_effect[OF fin] show "trace w' = trace w @ TransactionCommit t
      # new_transaction_events self create_new"
    by (simp add: emit_def new_transaction_events_def)
  from commit_finally_effect[OF fin] show "callbacks self' = []" by simp
qed


text \<open>
  C4, as the code has it. Callbacks are registered with \<^verbatim>\<open>on_commit\<close>, which ignores one
  already pending. A \<^verbatim>\<open>commit\<close> on a scope with a transaction set empties the list of
  pending callbacks before it asks the driver to commit. When the driver commits and no
  callback raises, every registered callback is called exactly once, after the commit, in the
  order of first registration, and what the callbacks registered meanwhile is pending for
  the next commit and is not called in this one. When the driver's commit raises, no
  callback is called and none stays pending.
\<close>

theorem commit_callbacks_once_in_order:
  assumes "callbacks self0 = []" and "transaction self0 = Some t"
  shows
   "case commit env (foldl on_commit self0 regs) create_new w of
      (r, self', w') \<Rightarrow>
        (on_unit env (trace w) (TransactionCommit t) = None \<and>
         (\<forall>c\<in>set regs. snd (cb_body env c) = None) \<longrightarrow>
           trace w' = trace w @ TransactionCommit t # map Callback (first_occurrences regs)
                        @ new_transaction_events self0 create_new
           \<and> (\<forall>c\<in>set regs. count_list (first_occurrences regs) c = 1)
           \<and> callbacks self' =
               first_occurrences (concat (map (\<lambda>c. fst (cb_body env c)) (first_occurrences regs))))
        \<and> (on_unit env (trace w) (TransactionCommit t) \<noteq> None \<longrightarrow>
           trace w' = trace w @ TransactionCommit t # new_transaction_events self0 create_new
           \<and> callbacks self' = [])"
proof -
  let ?s = "foldl on_commit self0 regs"
  obtain r self' w' where c: "commit env ?s create_new w = (r, self', w')"
    by (cases "commit env ?s create_new w")
  have cbs: "callbacks ?s = first_occurrences regs"
    by (rule callbacks_foldl_on_commit[OF assms(1)])
  have tr: "transaction ?s = Some t" and con: "connection ?s = connection self0"
    using foldl_on_commit_fields[of self0 regs] assms(2) by simp_all
  have nte: "new_transaction_events ?s create_new = new_transaction_events self0 create_new"
    by (simp add: new_transaction_events_def con)
  have a: "trace w' = trace w @ TransactionCommit t # map Callback (first_occurrences regs)
                        @ new_transaction_events self0 create_new
        \<and> (\<forall>c\<in>set regs. count_list (first_occurrences regs) c = 1)
        \<and> callbacks self' =
               first_occurrences (concat (map (\<lambda>c. fst (cb_body env c)) (first_occurrences regs)))"
    if ok: "on_unit env (trace w) (TransactionCommit t) = None"
      and quiet: "\<forall>c\<in>set regs. snd (cb_body env c) = None"
  proof -
    from quiet have q: "\<forall>c\<in>set (callbacks ?s). snd (cb_body env c) = None"
      by (simp add: cbs set_first_occurrences)
    from commit_runs_callbacks[OF tr ok q c] show ?thesis
      by (simp add: cbs nte count_list_distinct distinct_first_occurrences set_first_occurrences)
  qed
  have b: "trace w' = trace w @ TransactionCommit t # new_transaction_events self0 create_new
        \<and> callbacks self' = []"
    if "on_unit env (trace w) (TransactionCommit t) \<noteq> None"
  proof -
    from that obtain e where "on_unit env (trace w) (TransactionCommit t) = Some e" by blast
    from commit_fails_drops[OF tr this c] show ?thesis by (simp add: nte)
  qed
  from a b show ?thesis by (simp add: c)
qed

lemma chatty_env_simps:
  "on_unit chatty_env tr ev = None"
  "cb_body chatty_env c = (if c = 4 then ([6, 5], None) else ([], None))"
  by (simp_all add: chatty_env_def quiet_env_def)

theorem commit_callbacks_once_in_order_witness:
  "callbacks entered_scope = [] \<and>
   transaction entered_scope = Some (Transaction (Connection 7 False)) \<and>
   on_unit chatty_env (trace world0) (TransactionCommit (Transaction (Connection 7 False))) = None \<and>
   snd (cb_body chatty_env 4) = None \<and> snd (cb_body chatty_env 5) = None \<and>
   trace (snd (snd (commit chatty_env (foldl on_commit entered_scope [4, 5, 4]) False world0)))
     = [TransactionCommit (Transaction (Connection 7 False)), Callback 4, Callback 5] \<and>
   callbacks (fst (snd (commit chatty_env (foldl on_commit entered_scope [4, 5, 4]) False world0)))
     = [6, 5]"
proof -
  let ?t = "Transaction (Connection 7 False)"
  let ?run = "commit chatty_env (foldl on_commit entered_scope [4, 5, 4]) False world0"
  have h1: "callbacks entered_scope = []" and h2: "transaction entered_scope = Some ?t"
    by (simp_all add: entered_scope_simps)
  have h3: "on_unit chatty_env (trace world0) (TransactionCommit ?t) = None"
    by (simp add: chatty_env_simps)
  have h4: "\<forall>c\<in>set [4, 5, 4::nat]. snd (cb_body chatty_env c) = None"
    by (simp add: chatty_env_simps)
  from commit_callbacks_once_in_order[OF h1 h2, where env = chatty_env and regs = "[4, 5, 4]"
      and create_new = False and w = world0] h3 h4
  have "trace (snd (snd ?run)) = trace world0 @ TransactionCommit ?t
            # map Callback (first_occurrences [4, 5, 4]) @ new_transaction_events entered_scope False
      \<and> callbacks (fst (snd ?run))
          = first_occurrences (concat (map (\<lambda>c. fst (cb_body chatty_env c)) (first_occurrences [4, 5, 4])))"
    by (cases ?run) auto
  then have "trace (snd (snd ?run)) = [TransactionCommit ?t, Callback 4, Callback 5]
      \<and> callbacks (fst (snd ?run)) = [6, 5]"
    by (simp add: first_occurrences_def chatty_env_simps world0_def new_transaction_events_def)
  moreover have "snd (cb_body chatty_env 4) = None" "snd (cb_body chatty_env 5) = None"
    by (simp_all add: chatty_env_simps)
  ultimately show ?thesis using h1 h2 h3 by blast
qed

lemma flaky_commit_env_simps:
  "on_unit flaky_commit_env tr ev =
     (if ev = TransactionCommit (Transaction (Connection 7 False)) \<and> ev \<notin> set tr
      then Some (OtherError ''could not serialize access'') else None)"
  "cb_body flaky_commit_env c = ([], None)"
  by (simp_all add: flaky_commit_env_def quiet_env_def)

lemma failed_commit_run_eq:
  "failed_commit_run =
     (Inl (OtherError ''could not serialize access''),
      entered_scope\<lparr>callbacks := []\<rparr>,
      \<lparr>trace = [TransactionCommit (Transaction (Connection 7 False)),
                TransactionStart (Transaction (Connection 7 False))],
       global_database_pool = None\<rparr>)"
  by (simp add: failed_commit_run_def commit_def on_commit_def entered_scope_def call_unit_def
      flaky_commit_env_simps world0_def emit_def commit_finally_def)

theorem commit_callbacks_counterexample:
  "callbacks (on_commit entered_scope 4) = [4] \<and>
   fst failed_commit_run = Inl (OtherError ''could not serialize access'') \<and>
   fst next_commit_run = Inr () \<and>
   trace (snd (snd next_commit_run))
     = [TransactionCommit (Transaction (Connection 7 False)),
        TransactionStart (Transaction (Connection 7 False)),
        TransactionCommit (Transaction (Connection 7 False))]"
  by (simp add: next_commit_run_def failed_commit_run_eq commit_def on_commit_def
      entered_scope_def call_unit_def flaky_commit_env_simps emit_def commit_finally_def)

subsection \<open>Entering a scope when the connection does not exist\<close>

lemma aenter_other_pool:
  assumes "connection self = None"
    and "on_conn env (trace w) (PoolAcquire (pool self) (timeout self)) = Inl ConnectionDoesNotExistError"
    and "global_database_pool w = Some g" and "g \<noteq> pool self"
  shows "aenter env self w =
     Some (Inl ConnectionDoesNotExistError, self,
           emit (LogException ''Error acquiring connection'')
             (emit (PoolAcquire (pool self) (timeout self)) w))"
  using assms
  by (auto simp: aenter_def call_conn_def get_database_pool_def emit_def)

lemma aenter_registry_unset:
  assumes "connection self = None"
    and "on_conn env (trace w) (PoolAcquire (pool self) (timeout self)) = Inl ConnectionDoesNotExistError"
    and "global_database_pool w = None"
  shows "aenter env self w =
     Some (Inl (AssertionError ''database not prepared before use''), self,
           emit (LogException ''Error acquiring connection'')
             (emit (PoolAcquire (pool self) (timeout self)) w))"
  using assms
  by (simp add: aenter_def call_conn_def get_database_pool_def emit_def)

lemma aenter_recovery_close_fails:
  assumes "connection self = None"
    and "on_conn env (trace w) (PoolAcquire (pool self) (timeout self)) = Inl ConnectionDoesNotExistError"
    and "global_database_pool w = Some (pool self)"
    and "on_unit env (trace w @ [PoolAcquire (pool self) (timeout self),
            LogException ''Error acquiring connection'']) (PoolClose (pool self)) = Some x"
  shows "aenter env self w =
     Some (Inl (SystemExit 1), self,
           \<lparr>trace = trace w @ [PoolAcquire (pool self) (timeout self),
              LogException ''Error acquiring connection'', PoolClose (pool self),
              LogException ''Unable to recover global database pool''],
            global_database_pool = None\<rparr>)"
  using assms
  by (simp add: aenter_def call_conn_def call_unit_def get_database_pool_def emit_def
      set_database_pool_def fail_hard_def)

text \<open>
  C9, at the input where the code departs from it: a scope on pool 5 while the process-wide
  pool was never set. The acquisition raises \<^verbatim>\<open>ConnectionDoesNotExistError\<close>; the
  handler calls \<^verbatim>\<open>get_database_pool()\<close>, whose assertion fails, and the caller
  receives the \<^verbatim>\<open>AssertionError\<close> instead of the acquisition error.
\<close>

theorem aenter_no_default_pool_raises_assertion:
  "aenter broken_link_env (HandlerDatabasePoolContext 5 False None) world0 =
     Some (Inl (AssertionError ''database not prepared before use''),
           HandlerDatabasePoolContext 5 False None,
           \<lparr>trace = [PoolAcquire 5 None, LogException ''Error acquiring connection''],
            global_database_pool = None\<rparr>)"
  by (simp add: aenter_def HandlerDatabasePoolContext_def broken_link_env_def call_conn_def
      get_database_pool_def emit_def world0_def)

text \<open>
  The rest of C9 on runs of the model: with another pool registered the acquisition error
  reaches the caller and the registry is unchanged; with the scope's own pool registered
  the registry is cleared, the pool closed, a new pool prepared (here the migration wait
  returns at once, the bootstrap script being absent) and the acquisition retried once.
\<close>

lemma aenter_other_pool_run:
  "aenter broken_link_env (HandlerDatabasePoolContext 5 False None)
       (world0\<lparr>global_database_pool := Some 6\<rparr>) =
     Some (Inl ConnectionDoesNotExistError,
           HandlerDatabasePoolContext 5 False None,
           \<lparr>trace = [PoolAcquire 5 None, LogException ''Error acquiring connection''],
            global_database_pool = Some 6\<rparr>)"
  by (simp add: aenter_def HandlerDatabasePoolContext_def broken_link_env_def call_conn_def
      get_database_pool_def emit_def world0_def)

lemma broken_once_env_simps:
  "on_conn broken_once_env tr ev =
     (if tr = [] then Inl ConnectionDoesNotExistError else Inr (Connection 8 False))"
  "on_unit broken_once_env tr ev = None"
  "on_pool broken_once_env tr ev = Inr 0"
  "files broken_once_env p = None"
  by (simp_all add: broken_once_env_def quiet_env_def)

lemma prepare_database_run:
  "prepare_database broken_once_env None (Some False)
      \<lparr>trace = [PoolAcquire 5 None, LogException ''Error acquiring connection'', PoolClose 5],
       global_database_pool = None\<rparr> =
     Some (Inr 0,
       \<lparr>trace = [PoolAcquire 5 None, LogException ''Error acquiring connection'', PoolClose 5,
                 CreatePool None, PoolAcquire 0 None, LogWarning MISSING_CREATE_TABLES,
                 PoolRelease 0 (Some (Connection 8 False))],
        global_database_pool = Some 0\<rparr>)"
  by (simp add: prepare_database_def prepare_global_pool_def call_pool_def call_conn_def
      call_unit_def emit_def broken_once_env_simps wait_for_migration_def path_exists_def)

lemma aenter_recovery_run:
  "aenter broken_once_env (HandlerDatabasePoolContext 5 False None)
       (world0\<lparr>global_database_pool := Some 5\<rparr>) =
     Some (Inr (),
           \<lparr>pool = 0, timeout = None, autocommit = False,
            connection = Some (Connection 8 False),
            transaction = Some (Transaction (Connection 8 False)),
            done' = False, callbacks = []\<rparr>,
           \<lparr>trace = [PoolAcquire 5 None, LogException ''Error acquiring connection'', PoolClose 5,
                     CreatePool None, PoolAcquire 0 None, LogWarning MISSING_CREATE_TABLES,
                     PoolRelease 0 (Some (Connection 8 False)),
                     PoolAcquire 0 None, TransactionStart (Transaction (Connection 8 False))],
            global_database_pool = Some 0\<rparr>)"
  by (simp add: aenter_def HandlerDatabasePoolContext_def call_conn_def call_unit_def
      get_database_pool_def set_database_pool_def emit_def world0_def broken_once_env_simps
      prepare_database_run start_transaction_def)

section \<open>Properties of the migration runner and waiter\<close>

lemma latest_migration_gap:
  "(\<forall>i<n. path_exists env (migrate_path (v + 1 + int i))) \<Longrightarrow>
   \<not> path_exists env (migrate_path (v + int n + 1)) \<Longrightarrow>
   latest_migration env v = Some (v + int n)"
proof (induction n arbitrary: v)
  case 0
  then show ?case
    by (subst latest_migration.simps) simp
next
  case (Suc n)
  from Suc.prems(1)[rule_format, of 0] have e: "path_exists env (migrate_path (v + 1))"
    by simp
  have "latest_migration env (v + 1) = Some (v + 1 + int n)"
  proof (rule Suc.IH)
    show "\<forall>i<n. path_exists env (migrate_path (v + 1 + 1 + int i))"
    proof (intro allI impI)
      fix i assume "i < n"
      then have "Suc i < Suc n" by simp
      from Suc.prems(1)[rule_format, OF this]
      show "path_exists env (migrate_path (v + 1 + 1 + int i))"
        by (simp add: add.assoc)
    qed
    from Suc.prems(2) show "\<not> path_exists env (migrate_path (v + 1 + int n + 1))"
      by (simp add: add.assoc)
  qed
  then show ?case
    by (subst latest_migration.simps) (simp add: e add.assoc)
qed

lemma applied_events_snoc:
  "applied_events con sql v (Suc n) =
     applied_events con sql v n @ script_events con sql (v + int n + 1)"
proof (induction n arbitrary: v)
  case 0
  then show ?case by simp
next
  case (Suc n)
  have "applied_events con sql v (Suc (Suc n)) =
      script_events con sql (v + 1) @ applied_events con sql (v + 1) (Suc n)"
    by simp
  also have "\<dots> = script_events con sql (v + 1) @ applied_events con sql (v + 1) n
      @ script_events con sql (v + 1 + int n + 1)"
    by (simp only: Suc.IH append_assoc)
  also have "\<dots> = applied_events con sql v (Suc n) @ script_events con sql (v + int (Suc n) + 1)"
    by (simp add: add.assoc)
  finally show ?case .
qed



lemma migrate_path_small:
  "migrate_path 1 = ''sql/migrate_00000001.sql''"
  "migrate_path 2 = ''sql/migrate_00000002.sql''"
  "migrate_path 3 = ''sql/migrate_00000003.sql''"
  "migrate_path 4 = ''sql/migrate_00000004.sql''"
  by (simp_all add: migrate_path_def format_08_def zfill_def digits_small digit_char_def eval_nat_numeral)






lemma migration_files_simps:
  "migration_files ''sql/create_tables.sql'' = Some ''CREATE TABLE a (id INTEGER)''"
  "migration_files (migrate_path 1) = Some ''M1''"
  "migration_files (migrate_path 2) = Some ''M2''"
  "migration_files (migrate_path 3) = Some ''M3''"
  "migration_files (migrate_path 4) = None"
  by (simp_all add: migration_files_def migrate_path_small)


lemma no_bootstrap_env_simps:
  "files no_bootstrap_env ''sql/create_tables.sql'' = None"
  "files no_bootstrap_env (migrate_path 2) = Some ''M2''"
  "files no_bootstrap_env (migrate_path 3) = Some ''M3''"
  "on_row no_bootstrap_env tr ev = Inr (Some [(''version_number'', SInt 1)])"
  by (simp_all add: no_bootstrap_env_def migrating_env_def quiet_env_def migrate_path_small
      migration_files_def)


subsection \<open>A fresh database\<close>

lemma emit_warnings:
  "emit (LogWarning (''DB version: '' @ str_sqlval v @ '', latest migration script: '' @ str_int N))
     (emit (LogWarning ''Warning, migration scripts exist but database version has not been set in create_tables.sql'') w)
   = w\<lparr>trace := trace w @ version_warnings v N\<rparr>"
  by (simp add: emit_def version_warnings_def)

text \<open>
  C6. On a fresh database (the version query raises \<^verbatim>\<open>UndefinedTableError\<close>) with the
  bootstrap script present, \<^verbatim>\<open>create_tables\<close> creates the version table, inserts the
  row 0, runs the bootstrap script and returns normally without running any migration
  script. With no migration script it does nothing more and logs no warning; with scripts
  \<open>1..n\<close> it reads the version again and logs two warning lines exactly when that version
  is not \<open>n\<close>.
\<close>

theorem create_tables_fresh_database:
  assumes boot: "files env ''sql/create_tables.sql'' = Some bootstrap"
    and fresh: "on_row env (trace w) (Fetchrow con SELECT_VERSION [] None) = Inl UndefinedTableError"
    and execs: "\<forall>k. 1 \<le> k \<and> k < 4 \<longrightarrow>
        \<not> isl (on_status env (trace w @ take k (fresh_events con bootstrap))
                 (fresh_events con bootstrap ! k))"
    and scripts: "\<forall>i<n. path_exists env (migrate_path (1 + int i))"
    and gap: "\<not> path_exists env (migrate_path (int n + 1))"
  shows
   "(n = 0 \<longrightarrow>
       create_tables env con w = Some (Inr (), w\<lparr>trace := trace w @ fresh_events con bootstrap\<rparr>)) \<and>
    (\<forall>r v. 0 < n \<and>
         on_row env (trace w @ fresh_events con bootstrap) (Fetchrow con SELECT_VERSION [] None) = Inr r \<and>
         subscript r ''version_number'' = Inr v \<longrightarrow>
       create_tables env con w =
         Some (Inr (),
               w\<lparr>trace := trace w @ fresh_events con bootstrap
                    @ Fetchrow con SELECT_VERSION [] None
                    # (if v = SInt (int n) then [] else version_warnings v (int n))\<rparr>))"
proof -
  define F where "F = Fetchrow con SELECT_VERSION [] None"
  define C where "C = Execute con ''CREATE TABLE database_version (version_number INTEGER)'' [] None"
  define I where "I = Execute con ''INSERT INTO database_version (version_number) VALUES (0)'' [] None"
  define B where "B = Execute con bootstrap [] None"
  have fe: "fresh_events con bootstrap = [F, C, I, B]"
    by (simp add: fresh_events_def F_def C_def I_def B_def)
  from execs[rule_format, of 1] have c: "\<not> isl (on_status env (trace w @ [F]) C)"
    by (simp add: fe)
  from execs[rule_format, of 2] have i: "\<not> isl (on_status env (trace w @ [F, C]) I)"
    by (simp add: fe eval_nat_numeral)
  from execs[rule_format, of 3] have b: "\<not> isl (on_status env (trace w @ [F, C, I]) B)"
    by (simp add: fe eval_nat_numeral)
  have latest: "latest_migration env 0 = Some (int n)"
    using latest_migration_gap[of n env 0] scripts gap by simp
  have pe: "path_exists env ''sql/create_tables.sql''"
    using boot by (simp add: path_exists_def)
  define w4 where "w4 = w\<lparr>trace := trace w @ [F, C, I, B]\<rparr>"
  have fresh_run: "create_tables_fresh env con (emit F w) =
      (if int n > 0
       then (case call_row env F w4 of
               (Inl e, w5) \<Rightarrow> Some (Inl e, w5)
             | (Inr r, w5) \<Rightarrow>
                 (case subscript r ''version_number'' of
                    Inl e \<Rightarrow> Some (Inl e, w5)
                  | Inr v \<Rightarrow>
                      if v \<noteq> SInt (int n)
                      then Some (Inr (),
                             emit (LogWarning (''DB version: '' @ str_sqlval v
                                     @ '', latest migration script: '' @ str_int (int n)))
                               (emit (LogWarning ''Warning, migration scripts exist but database version has not been set in create_tables.sql'') w5))
                      else Some (Inr (), w5)))
       else Some (Inr (), w4))"
    using c i b boot latest
    unfolding create_tables_fresh_def F_def[symmetric]
    by (auto simp: call_status_def emit_def C_def[symmetric] I_def[symmetric] B_def[symmetric]
        w4_def split: sum.splits)
  have ct: "create_tables env con w = create_tables_fresh env con (emit F w)"
    using pe fresh by (simp add: create_tables_def call_row_def F_def)
  show ?thesis
  proof (intro conjI impI allI)
    assume "n = 0"
    then show "create_tables env con w = Some (Inr (), w\<lparr>trace := trace w @ fresh_events con bootstrap\<rparr>)"
      by (simp add: ct fresh_run w4_def fe)
  next
    fix r v
    assume h: "0 < n \<and>
         on_row env (trace w @ fresh_events con bootstrap) (Fetchrow con SELECT_VERSION [] None) = Inr r \<and>
         subscript r ''version_number'' = Inr v"
    define w5 where "w5 = w\<lparr>trace := trace w @ [F, C, I, B, F]\<rparr>"
    from h have cr: "call_row env F w4 = (Inr r, w5)"
      by (simp add: call_row_def w4_def w5_def emit_def fe F_def)
    from h have sub: "subscript r ''version_number'' = Inr v" and pos: "0 < n"
      by simp_all
    have "create_tables env con w =
         Some (Inr (),
               w\<lparr>trace := trace w @ [F, C, I, B]
                    @ F # (if v = SInt (int n) then [] else version_warnings v (int n))\<rparr>)"
      unfolding ct fresh_run emit_warnings
      by (simp add: pos cr sub w5_def)
    then show "create_tables env con w =
         Some (Inr (),
               w\<lparr>trace := trace w @ fresh_events con bootstrap
                    @ Fetchrow con SELECT_VERSION [] None
                    # (if v = SInt (int n) then [] else version_warnings v (int n))\<rparr>)"
      by (simp only: fe F_def)
  qed
qed


lemma bare_env_simps:
  "files bare_env ''sql/create_tables.sql'' = Some ''CREATE TABLE a (id INTEGER)''"
  "files bare_env (migrate_path 1) = None"
  "on_row bare_env tr ev =
     (if tr = [] then Inl UndefinedTableError else Inr (Some [(''version_number'', SInt 0)]))"
  "on_status bare_env tr ev = Inr ''OK''"
  by (simp_all add: bare_env_def quiet_env_def migrate_path_small)

lemma fresh_env_simps:
  "files fresh_env = migration_files"
  "on_row fresh_env tr ev =
     (if tr = [] then Inl UndefinedTableError else Inr (Some [(''version_number'', SInt 0)]))"
  "on_status fresh_env tr ev = Inr ''OK''"
  by (simp_all add: fresh_env_def bare_env_def quiet_env_def)

theorem create_tables_fresh_database_witness:
  "create_tables bare_env (Connection 7 False) world0 =
     Some (Inr (),
           world0\<lparr>trace := fresh_events (Connection 7 False) ''CREATE TABLE a (id INTEGER)''\<rparr>) \<and>
   create_tables fresh_env (Connection 7 False) world0 =
     Some (Inr (),
           world0\<lparr>trace := fresh_events (Connection 7 False) ''CREATE TABLE a (id INTEGER)''
                    @ Fetchrow (Connection 7 False) SELECT_VERSION [] None
                    # version_warnings (SInt 0) 3\<rparr>)"
proof -
  let ?c = "Connection 7 False"
  let ?boot = "''CREATE TABLE a (id INTEGER)''"
  let ?F = "Fetchrow ?c SELECT_VERSION [] None"
  have tr0: "trace world0 = []" by (simp add: world0_def)
  have a: "create_tables bare_env ?c world0 = Some (Inr (), world0\<lparr>trace := fresh_events ?c ?boot\<rparr>)"
  proof -
    have boot: "files bare_env ''sql/create_tables.sql'' = Some ?boot"
      by (simp add: bare_env_simps)
    have fresh: "on_row bare_env (trace world0) ?F = Inl UndefinedTableError"
      by (simp add: bare_env_simps tr0)
    have execs: "\<forall>k. 1 \<le> k \<and> k < 4 \<longrightarrow>
        \<not> isl (on_status bare_env (trace world0 @ take k (fresh_events ?c ?boot))
                 (fresh_events ?c ?boot ! k))"
      by (simp add: bare_env_simps)
    have scripts: "\<forall>i<0. path_exists bare_env (migrate_path (1 + int i))"
      by simp
    have gap: "\<not> path_exists bare_env (migrate_path (int 0 + 1))"
      by (simp add: path_exists_def bare_env_simps)
    from create_tables_fresh_database[OF boot fresh execs scripts gap, THEN conjunct1]
    show ?thesis by (simp add: tr0)
  qed
  have b: "create_tables fresh_env ?c world0 =
     Some (Inr (), world0\<lparr>trace := fresh_events ?c ?boot @ ?F # version_warnings (SInt 0) 3\<rparr>)"
  proof -
    have boot: "files fresh_env ''sql/create_tables.sql'' = Some ?boot"
      by (simp add: fresh_env_simps migration_files_simps)
    have fresh: "on_row fresh_env (trace world0) ?F = Inl UndefinedTableError"
      by (simp add: fresh_env_simps tr0)
    have execs: "\<forall>k. 1 \<le> k \<and> k < 4 \<longrightarrow>
        \<not> isl (on_status fresh_env (trace world0 @ take k (fresh_events ?c ?boot))
                 (fresh_events ?c ?boot ! k))"
      by (simp add: fresh_env_simps)
    have scripts: "\<forall>i<3. path_exists fresh_env (migrate_path (1 + int i))"
    proof (intro allI impI)
      fix i :: nat
      assume "i < 3"
      then have "i = 0 \<or> i = 1 \<or> i = 2" by auto
      then show "path_exists fresh_env (migrate_path (1 + int i))"
        by (auto simp: path_exists_def fresh_env_simps migration_files_simps)
    qed
    have gap: "\<not> path_exists fresh_env (migrate_path (int 3 + 1))"
      by (simp add: path_exists_def fresh_env_simps migration_files_simps)
    have again: "0 < (3::nat) \<and>
         on_row fresh_env (trace world0 @ fresh_events ?c ?boot) ?F
           = Inr (Some [(''version_number'', SInt 0)]) \<and>
         subscript (Some [(''version_number'', SInt 0)]) ''version_number'' = Inr (SInt 0)"
      by (simp add: fresh_env_simps fresh_events_def subscript_def)
    from create_tables_fresh_database[OF boot fresh execs scripts gap, THEN conjunct2,
        rule_format, OF again]
    show ?thesis by (simp add: tr0)
  qed
  from a b show ?thesis by blast
qed


subsection \<open>Waiting for the migration\<close>

lemma wait_poll_not_ready:
  "not_ready version (on_row env (trace w) (Fetchrow con SELECT_VERSION [] None)) \<Longrightarrow>
   wait_poll env con pf version w =
     wait_poll env con pf version (w\<lparr>trace := trace w @ poll_events con pf\<rparr>)"
  by (subst wait_poll.simps)
    (auto simp: not_ready_def call_row_def emit_def poll_events_def split: sum.splits)

lemma wait_poll_ready:
  "ready version (on_row env (trace w) (Fetchrow con SELECT_VERSION [] None)) \<Longrightarrow>
   wait_poll env con pf version w =
     Some (Inr (), w\<lparr>trace := trace w @ [Fetchrow con SELECT_VERSION [] None]\<rparr>)"
  by (subst wait_poll.simps)
    (auto simp: ready_def call_row_def emit_def split: sum.splits)

lemma wait_poll_run:
  "\<forall>j<k. not_ready version
            (on_row env (trace w @ concat (replicate j (poll_events con pf)))
               (Fetchrow con SELECT_VERSION [] None)) \<Longrightarrow>
   ready version
     (on_row env (trace w @ concat (replicate k (poll_events con pf)))
        (Fetchrow con SELECT_VERSION [] None)) \<Longrightarrow>
   wait_poll env con pf version w =
     Some (Inr (), w\<lparr>trace := trace w @ concat (replicate k (poll_events con pf))
                          @ [Fetchrow con SELECT_VERSION [] None]\<rparr>)"
proof (induction k arbitrary: w)
  case 0
  then show ?case by (simp add: wait_poll_ready)
next
  case (Suc k)
  define w1 where "w1 = w\<lparr>trace := trace w @ poll_events con pf\<rparr>"
  have tr1: "trace w1 = trace w @ poll_events con pf"
    and upd: "\<And>X. w1\<lparr>trace := X\<rparr> = w\<lparr>trace := X\<rparr>"
    by (simp_all add: w1_def)
  from Suc.prems(1)[rule_format, of 0]
  have "not_ready version (on_row env (trace w) (Fetchrow con SELECT_VERSION [] None))"
    by simp
  then have step: "wait_poll env con pf version w = wait_poll env con pf version w1"
    unfolding w1_def by (rule wait_poll_not_ready)
  have "wait_poll env con pf version w1 =
     Some (Inr (), w1\<lparr>trace := trace w1 @ concat (replicate k (poll_events con pf))
                          @ [Fetchrow con SELECT_VERSION [] None]\<rparr>)"
  proof (rule Suc.IH)
    show "\<forall>j<k. not_ready version
            (on_row env (trace w1 @ concat (replicate j (poll_events con pf)))
               (Fetchrow con SELECT_VERSION [] None))"
    proof (intro allI impI)
      fix j assume "j < k"
      then have "Suc j < Suc k" by simp
      from Suc.prems(1)[rule_format, OF this]
      show "not_ready version
            (on_row env (trace w1 @ concat (replicate j (poll_events con pf)))
               (Fetchrow con SELECT_VERSION [] None))"
        by (simp add: tr1)
    qed
    from Suc.prems(2) show "ready version
        (on_row env (trace w1 @ concat (replicate k (poll_events con pf)))
           (Fetchrow con SELECT_VERSION [] None))"
      by (simp add: tr1)
  qed
  then show ?case
    by (simp add: step tr1 upd)
qed

text \<open>
  C7, as the code has it. When the bootstrap script \<^verbatim>\<open>sql/create_tables.sql\<close> is absent
  the waiter logs a warning and returns at once, without a poll. When it exists, the
  expected version is the number \<open>n\<close> of the last migration script before the first gap;
  as long as the version query raises \<^verbatim>\<open>UndefinedTableError\<close> or yields another version
  the waiter logs, sleeps and polls again, and at the first poll that yields \<open>n\<close> it
  returns.
\<close>

theorem wait_for_migration_polls:
  "(\<not> path_exists env ''sql/create_tables.sql'' \<longrightarrow>
      wait_for_migration env con pf w = Some (Inr (), emit (LogWarning MISSING_CREATE_TABLES) w)) \<and>
   (path_exists env ''sql/create_tables.sql'' \<and>
    (\<forall>i<n. path_exists env (migrate_path (1 + int i))) \<and>
    \<not> path_exists env (migrate_path (int n + 1)) \<and>
    (\<forall>j<k. not_ready (int n)
             (on_row env (trace w @ concat (replicate j (poll_events con pf)))
                (Fetchrow con SELECT_VERSION [] None))) \<and>
    ready (int n)
      (on_row env (trace w @ concat (replicate k (poll_events con pf)))
         (Fetchrow con SELECT_VERSION [] None))
    \<longrightarrow>
      wait_for_migration env con pf w =
        Some (Inr (),
              w\<lparr>trace := trace w @ concat (replicate k (poll_events con pf))
                   @ [Fetchrow con SELECT_VERSION [] None,
                      LogInfo (''got database version: '' @ str_int (int n))]\<rparr>))"
proof (intro conjI impI)
  assume "\<not> path_exists env ''sql/create_tables.sql''"
  then show "wait_for_migration env con pf w = Some (Inr (), emit (LogWarning MISSING_CREATE_TABLES) w)"
    by (simp add: wait_for_migration_def)
next
  assume h: "path_exists env ''sql/create_tables.sql'' \<and>
    (\<forall>i<n. path_exists env (migrate_path (1 + int i))) \<and>
    \<not> path_exists env (migrate_path (int n + 1)) \<and>
    (\<forall>j<k. not_ready (int n)
             (on_row env (trace w @ concat (replicate j (poll_events con pf)))
                (Fetchrow con SELECT_VERSION [] None))) \<and>
    ready (int n)
      (on_row env (trace w @ concat (replicate k (poll_events con pf)))
         (Fetchrow con SELECT_VERSION [] None))"
  then have latest: "latest_migration env 0 = Some (int n)"
    using latest_migration_gap[of n env 0] by simp
  from h have "wait_poll env con pf (int n) w =
     Some (Inr (), w\<lparr>trace := trace w @ concat (replicate k (poll_events con pf))
                          @ [Fetchrow con SELECT_VERSION [] None]\<rparr>)"
    by (intro wait_poll_run) blast+
  with h latest show "wait_for_migration env con pf w =
        Some (Inr (),
              w\<lparr>trace := trace w @ concat (replicate k (poll_events con pf))
                   @ [Fetchrow con SELECT_VERSION [] None,
                      LogInfo (''got database version: '' @ str_int (int n))]\<rparr>)"
    by (simp add: wait_for_migration_def emit_def)
qed


lemma waiting_env_simps:
  "files waiting_env = migration_files"
  "on_row waiting_env tr ev =
     (if length tr = 0 then Inl UndefinedTableError
      else if length tr = 3 then Inr (Some [(''version_number'', SInt 2)])
      else Inr (Some [(''version_number'', SInt 3)]))"
  by (simp_all add: waiting_env_def quiet_env_def)

theorem wait_for_migration_polls_witness:
  "wait_for_migration waiting_env (Connection 7 False) 1 world0 =
     Some (Inr (),
           world0\<lparr>trace := poll_events (Connection 7 False) 1 @ poll_events (Connection 7 False) 1
                    @ [Fetchrow (Connection 7 False) SELECT_VERSION [] None,
                       LogInfo (''got database version: '' @ str_int 3)]\<rparr>)"
proof -
  let ?c = "Connection 7 False"
  let ?F = "Fetchrow ?c SELECT_VERSION [] None"
  have tr0: "trace world0 = []" by (simp add: world0_def)
  have boot: "path_exists waiting_env ''sql/create_tables.sql''"
    by (simp add: path_exists_def waiting_env_simps migration_files_simps)
  have scripts: "\<forall>i<3. path_exists waiting_env (migrate_path (1 + int i))"
  proof (intro allI impI)
    fix i :: nat
    assume "i < 3"
    then have "i = 0 \<or> i = 1 \<or> i = 2" by auto
    then show "path_exists waiting_env (migrate_path (1 + int i))"
      by (auto simp: path_exists_def waiting_env_simps migration_files_simps)
  qed
  have gap: "\<not> path_exists waiting_env (migrate_path (int 3 + 1))"
    by (simp add: path_exists_def waiting_env_simps migration_files_simps)
  have waits: "\<forall>j<2. not_ready (int 3)
             (on_row waiting_env (trace world0 @ concat (replicate j (poll_events ?c 1))) ?F)"
  proof (intro allI impI)
    fix j :: nat
    assume "j < 2"
    then have "j = 0 \<or> j = 1" by auto
    then show "not_ready (int 3)
             (on_row waiting_env (trace world0 @ concat (replicate j (poll_events ?c 1))) ?F)"
      by (auto simp: tr0 waiting_env_simps not_ready_def poll_events_def subscript_def)
  qed
  have match: "ready (int 3)
      (on_row waiting_env (trace world0 @ concat (replicate 2 (poll_events ?c 1))) ?F)"
    by (simp add: tr0 waiting_env_simps ready_def poll_events_def subscript_def eval_nat_numeral)
  from wait_for_migration_polls[where env = waiting_env and n = 3 and k = 2 and con = ?c
      and pf = 1 and w = world0, THEN conjunct2, THEN mp,
      OF conjI[OF boot conjI[OF scripts conjI[OF gap conjI[OF waits match]]]]]
  show ?thesis
    by (simp add: tr0 eval_nat_numeral)
qed

theorem wait_for_migration_no_bootstrap_counterexample:
  "files no_bootstrap_env (migrate_path 3) = Some ''M3'' \<and>
   files no_bootstrap_env (migrate_path 4) = None \<and>
   on_row no_bootstrap_env [] (Fetchrow (Connection 7 False) SELECT_VERSION [] None)
     = Inr (Some [(''version_number'', SInt 1)]) \<and>
   wait_for_migration no_bootstrap_env (Connection 7 False) 1 world0 =
     Some (Inr (), \<lparr>trace = [LogWarning MISSING_CREATE_TABLES], global_database_pool = None\<rparr>)"
proof -
  have "files no_bootstrap_env (migrate_path 4) = None"
    by (simp add: no_bootstrap_env_def migrate_path_small migration_files_def)
  then show ?thesis
    by (simp add: no_bootstrap_env_simps wait_for_migration_def path_exists_def emit_def world0_def)
qed

text \<open>The waiter returns normally only from a poll that found the expected version.\<close>

lemma wait_poll_returns_on_match:
  assumes "wait_poll env con pf version w = Some r"
  shows "case r of
           (Inl e, w') \<Rightarrow> True
         | (Inr u, w') \<Rightarrow>
             (\<exists>tr. trace w' = tr @ [Fetchrow con SELECT_VERSION [] None] \<and>
                   ready version (on_row env tr (Fetchrow con SELECT_VERSION [] None)))"
proof (rule wait_poll.raw_induct
    [where P = "\<lambda>env con pf version w r. case r of
           (Inl e, w') \<Rightarrow> True
         | (Inr u, w') \<Rightarrow>
             (\<exists>tr. trace w' = tr @ [Fetchrow con SELECT_VERSION [] None] \<and>
                   ready version (on_row env tr (Fetchrow con SELECT_VERSION [] None)))",
     OF _ assms])
  fix poll :: "env \<Rightarrow> conn \<Rightarrow> nat \<Rightarrow> int \<Rightarrow> world \<Rightarrow> ((exn + unit) \<times> world) option"
  fix env con pf version w r
  assume IH: "\<And>env con pf version w y. poll env con pf version w = Some y \<Longrightarrow>
      (case y of
           (Inl e, w') \<Rightarrow> True
         | (Inr u, w') \<Rightarrow>
             (\<exists>tr. trace w' = tr @ [Fetchrow con SELECT_VERSION [] None] \<and>
                   ready version (on_row env tr (Fetchrow con SELECT_VERSION [] None))))"
  assume body: "(case call_row env (Fetchrow con SELECT_VERSION [] None) w of
        (Inl e, w1) \<Rightarrow>
          if e = UndefinedTableError
          then poll env con pf version
                 (emit (Sleep pf) (emit (LogInfo ''waiting for database migration...'') w1))
          else Some (Inl e, w1)
      | (Inr r, w1) \<Rightarrow>
          (case subscript r ''version_number'' of
             Inl e \<Rightarrow> Some (Inl e, w1)
           | Inr v \<Rightarrow>
               if SInt version = v
               then Some (Inr (), w1)
               else poll env con pf version
                      (emit (Sleep pf) (emit (LogInfo ''waiting for database migration...'') w1)))) = Some r"
  show "case r of
           (Inl e, w') \<Rightarrow> True
         | (Inr u, w') \<Rightarrow>
             (\<exists>tr. trace w' = tr @ [Fetchrow con SELECT_VERSION [] None] \<and>
                   ready version (on_row env tr (Fetchrow con SELECT_VERSION [] None)))"
  proof (cases "on_row env (trace w) (Fetchrow con SELECT_VERSION [] None)")
    case (Inl e)
    with body IH show ?thesis
      by (auto simp: call_row_def split: if_splits)
  next
    case (Inr row)
    show ?thesis
    proof (cases "subscript row ''version_number''")
      case (Inl e)
      with Inr body show ?thesis by (auto simp: call_row_def)
    next
      case v: (Inr v)
      show ?thesis
      proof (cases "SInt version = v")
        case True
        with Inr v body have "r = (Inr (), emit (Fetchrow con SELECT_VERSION [] None) w)"
          by (auto simp: call_row_def)
        moreover have "ready version (on_row env (trace w) (Fetchrow con SELECT_VERSION [] None))"
          using Inr v True by (simp add: ready_def)
        ultimately show ?thesis by (auto simp: emit_def)
      next
        case False
        with Inr v body IH show ?thesis
          by (auto simp: call_row_def)
      qed
    qed
  qed
qed

end
